theory Spec2Isabelle
  imports Complex_Main "HOL-Library.Word" "HOL-Library.Signed_Division" "HOL-Library.Multiset"
begin

section \<open>Time and durations\<close>

text \<open>
  Go's \<open>time.Duration\<close> is an \<open>int64\<close> count of nanoseconds; a \<open>time.Time\<close> is modelled
  as the number of nanoseconds since the Unix epoch. Both are written as \<open>int\<close>; the one
  place where the library saturates (\<open>Time.Sub\<close>) has the saturation written out.
  Integer division of a duration truncates towards zero (\<open>sdiv\<close>).
\<close>

type_synonym duration = int
type_synonym time = int

definition Millisecond :: duration where
  "Millisecond = 1000000"

definition Second :: duration where
  "Second = 1000000000"

definition Minute :: duration where
  "Minute = 60 * Second"

definition Hour :: duration where
  "Hour = 60 * Minute"

definition minDuration :: duration where
  "minDuration = - (2 ^ 63)"

definition maxDuration :: duration where
  "maxDuration = 2 ^ 63 - 1"

definition time_Unix :: "int \<Rightarrow> time" where
  "time_Unix sec = sec * Second"

definition time_Add :: "time \<Rightarrow> duration \<Rightarrow> time" where
  "time_Add t d = t + d"

definition time_Sub :: "time \<Rightarrow> time \<Rightarrow> duration" where
  "time_Sub t u =
     (let d = t - u in
      if d > maxDuration then maxDuration
      else if d < minDuration then minDuration
      else d)"

definition duration_Milliseconds :: "duration \<Rightarrow> int" where
  "duration_Milliseconds d = d sdiv 1000000"

section \<open>Range query planner\<close>

text \<open>
  The three range endpoints start with the same lines: the range is the last hour unless
  both \<open>int32\<close> timestamps are non-zero. \<open>GetREDRequests\<close> and \<open>GetREDErrors\<close> then pick
  the \<open>timeRange\<close> of the generated query from the span.
\<close>

record range_plan =
  rp_start :: time
  rp_end :: time
  rp_step :: duration

definition requestRange :: "time \<Rightarrow> 32 word \<Rightarrow> 32 word \<Rightarrow> range_plan" where
  "requestRange now startTimestamp endTimestamp =
     (let start0 = time_Add now (-1 * Hour);
          end0 = now;
          (start, end) =
            (if startTimestamp \<noteq> 0 \<and> endTimestamp \<noteq> 0
             then (time_Unix (sint startTimestamp), time_Unix (sint endTimestamp))
             else (start0, end0))
      in \<lparr> rp_start = start, rp_end = end, rp_step = time_Sub end start sdiv 1000 \<rparr>)"

definition timeRangeFor :: "duration \<Rightarrow> duration" where
  "timeRangeFor diff =
     (if diff \<ge> 28 * 24 * Hour then 3 * Hour
      else if diff \<ge> 7 * 24 * Hour then Hour
      else if diff \<ge> 24 * Hour then 30 * Minute
      else if diff \<ge> 12 * Hour then 15 * Minute
      else 5 * Minute)"

record red_plan =
  red_range :: range_plan
  red_timeRange :: duration

definition GetObjectiveErrorBudget_range :: "time \<Rightarrow> 32 word \<Rightarrow> 32 word \<Rightarrow> range_plan" where
  "GetObjectiveErrorBudget_range now startTimestamp endTimestamp =
     requestRange now startTimestamp endTimestamp"

definition GetREDRequests_plan :: "time \<Rightarrow> 32 word \<Rightarrow> 32 word \<Rightarrow> red_plan" where
  "GetREDRequests_plan now startTimestamp endTimestamp =
     (let r = requestRange now startTimestamp endTimestamp;
          diff = time_Sub (rp_end r) (rp_start r)
      in \<lparr> red_range = r, red_timeRange = timeRangeFor diff \<rparr>)"

definition GetREDErrors_plan :: "time \<Rightarrow> 32 word \<Rightarrow> 32 word \<Rightarrow> red_plan" where
  "GetREDErrors_plan now startTimestamp endTimestamp =
     (let r = requestRange now startTimestamp endTimestamp;
          diff = time_Sub (rp_end r) (rp_start r)
      in \<lparr> red_range = r, red_timeRange = timeRangeFor diff \<rparr>)"

section \<open>Floating-point values\<close>

text \<open>
  A \<open>float64\<close> is IEEE 754 binary64. A finite value is written as the real number it
  denotes, next to the two infinities and NaN. The special values behave as the standard
  says and Go implements: NaN propagates through every operation, compares unequal to
  everything and is neither less nor greater than anything; a non-zero number divided by
  zero is an infinity and \<open>0 / 0\<close> is NaN.

  The result of every subtraction, multiplication and division of finite values is
  rounded to binary64 by \<open>round64\<close>: to the nearest value with a 53-bit significand,
  ties to the even significand, with gradual underflow below \<open>2^-1022\<close> (quantum
  \<open>2^-1074\<close>) and overflow to an infinity from \<open>2^1024 - 2^970\<close> on. The finite values
  the program holds are those \<open>round64\<close> returns; a decimal literal such as \<open>0.99\<close> is
  \<open>round64 (99 / 100)\<close>.

  The sign of zero is not modelled, and a zero divisor counts as positive. The program
  divides only by \<open>Availability.Total\<close>, whose zero entries are skipped before anything
  is emitted, and by \<open>Budget.Total = 1 - target\<close>, which is \<open>+0\<close> whenever it is zero.
  The conversion of an \<open>int64\<close> is written without rounding; it is exact up to \<open>2^53\<close>.
\<close>

datatype float64 = Fin real | PInf | NInf | NaN

definition math_IsNaN :: "float64 \<Rightarrow> bool" where
  "math_IsNaN x = (x = NaN)"

text \<open>The number of binary digits of a natural number.\<close>

fun bitLength :: "nat \<Rightarrow> nat" where
  "bitLength n = (if n = 0 then 0 else Suc (bitLength (n div 2)))"

declare bitLength.simps [simp del]

text \<open>
  For \<open>x \<noteq> 0\<close>, the exponent \<open>e\<close> with \<open>2^e \<le> |x| < 2^(e + 1)\<close>, computed from
  the integer part of \<open>|x|\<close> or of its reciprocal.
\<close>

definition exponentOf :: "real \<Rightarrow> int" where
  "exponentOf x =
     (if \<bar>x\<bar> \<ge> 1 then int (bitLength (nat \<lfloor>\<bar>x\<bar>\<rfloor>)) - 1
      else - int (bitLength (nat (\<lceil>1 / \<bar>x\<bar>\<rceil> - 1))))"

text \<open>\<open>scale2 x q\<close> is \<open>x * 2^q\<close> for an integer \<open>q\<close> of either sign.\<close>

definition scale2 :: "real \<Rightarrow> int \<Rightarrow> real" where
  "scale2 x q = (if q \<ge> 0 then x * 2 ^ nat q else x / 2 ^ nat (- q))"

definition roundHalfEven :: "real \<Rightarrow> int" where
  "roundHalfEven x =
     (let f = \<lfloor>x\<rfloor>; d = x - of_int f
      in if d < 1 / 2 then f
         else if d > 1 / 2 then f + 1
         else if even f then f else f + 1)"

text \<open>
  Rounding to binary64. \<open>q\<close> is the exponent of the last place: 52 below the exponent
  of \<open>x\<close>, and never below \<open>-1074\<close>; \<open>m\<close> is the significand as an integer.
\<close>

definition round64 :: "real \<Rightarrow> float64" where
  "round64 x =
     (if x = 0 then Fin 0
      else
        (let e = exponentOf x;
             q = max e (- 1022) - 52;
             m = roundHalfEven (scale2 \<bar>x\<bar> (- q));
             y = scale2 (of_int m) q
         in if y \<ge> 2 ^ 1024 then (if x > 0 then PInf else NInf)
            else Fin (if x > 0 then y else - y)))"

fun f_sub :: "float64 \<Rightarrow> float64 \<Rightarrow> float64" where
  "f_sub NaN _ = NaN"
| "f_sub _ NaN = NaN"
| "f_sub (Fin a) (Fin b) = round64 (a - b)"
| "f_sub (Fin a) PInf = NInf"
| "f_sub (Fin a) NInf = PInf"
| "f_sub PInf PInf = NaN"
| "f_sub PInf _ = PInf"
| "f_sub NInf NInf = NaN"
| "f_sub NInf _ = NInf"

fun f_mul :: "float64 \<Rightarrow> float64 \<Rightarrow> float64" where
  "f_mul NaN _ = NaN"
| "f_mul _ NaN = NaN"
| "f_mul (Fin a) (Fin b) = round64 (a * b)"
| "f_mul (Fin a) PInf = (if a = 0 then NaN else if a > 0 then PInf else NInf)"
| "f_mul (Fin a) NInf = (if a = 0 then NaN else if a > 0 then NInf else PInf)"
| "f_mul PInf (Fin b) = (if b = 0 then NaN else if b > 0 then PInf else NInf)"
| "f_mul NInf (Fin b) = (if b = 0 then NaN else if b > 0 then NInf else PInf)"
| "f_mul PInf PInf = PInf"
| "f_mul PInf NInf = NInf"
| "f_mul NInf PInf = NInf"
| "f_mul NInf NInf = PInf"

fun f_div :: "float64 \<Rightarrow> float64 \<Rightarrow> float64" where
  "f_div NaN _ = NaN"
| "f_div _ NaN = NaN"
| "f_div (Fin a) (Fin b) =
     (if b = 0 then (if a = 0 then NaN else if a > 0 then PInf else NInf)
      else round64 (a / b))"
| "f_div (Fin a) PInf = Fin 0"
| "f_div (Fin a) NInf = Fin 0"
| "f_div PInf (Fin b) = (if b \<ge> 0 then PInf else NInf)"
| "f_div NInf (Fin b) = (if b \<ge> 0 then NInf else PInf)"
| "f_div PInf _ = NaN"
| "f_div NInf _ = NaN"

fun f_lt :: "float64 \<Rightarrow> float64 \<Rightarrow> bool" where
  "f_lt NaN _ = False"
| "f_lt _ NaN = False"
| "f_lt (Fin a) (Fin b) = (a < b)"
| "f_lt (Fin a) PInf = True"
| "f_lt (Fin a) NInf = False"
| "f_lt PInf _ = False"
| "f_lt NInf NInf = False"
| "f_lt NInf _ = True"

definition f_eq :: "float64 \<Rightarrow> float64 \<Rightarrow> bool" where
  "f_eq x y = (x \<noteq> NaN \<and> y \<noteq> NaN \<and> x = y)"

definition f_ne :: "float64 \<Rightarrow> float64 \<Rightarrow> bool" where
  "f_ne x y = (\<not> f_eq x y)"

definition f_ge :: "float64 \<Rightarrow> float64 \<Rightarrow> bool" where
  "f_ge x y = (f_lt y x \<or> f_eq x y)"

definition float64_of_int :: "int \<Rightarrow> float64" where
  "float64_of_int i = Fin (real_of_int i)"

section \<open>Backend results\<close>

text \<open>
  The values of \<open>prometheus/common/model\<close>: a metric is a label set, a vector is a list
  of samples, a matrix a list of sample streams. Timestamps (\<open>model.Time\<close>) are \<open>int64\<close>
  milliseconds. \<open>ValNil\<close> is the nil interface.
\<close>

type_synonym labelset = "string \<rightharpoonup> string"
type_synonym fingerprint = "64 word"

record sample =
  s_metric :: labelset
  s_value :: float64
  s_timestamp :: int

record samplePair =
  p_timestamp :: int
  p_value :: float64

record sampleStream =
  st_metric :: labelset
  st_values :: "samplePair list"

datatype model_value =
    ValNil
  | ValScalar float64 int
  | ValVector "sample list"
  | ValMatrix "sampleStream list"
  | ValString string int

datatype error = Error string

datatype panic = NilDereference | TypeAssertion

text \<open>What \<open>Query\<close> and \<open>QueryRange\<close> return: value, warnings, error.\<close>

type_synonym query_result = "model_value \<times> string list \<times> error option"

section \<open>Query cache\<close>

text \<open>
  The cache stores \<open>interface{}\<close> values under 64-bit keys. \<open>IfaceValue\<close> is a stored
  item that implements \<open>model.Value\<close>, \<open>IfaceOther\<close> any other dynamic type. The state
  records, per key, the last item handed to \<open>SetWithTTL\<close> with its cost and TTL, and
  the log of calls that reached the backend. Eviction and expiry belong to the cache
  library and are not modelled. The hash (\<open>xxhash\<close>) and \<open>Time.String\<close> are parameters;
  writing several strings to the hasher hashes their concatenation.
\<close>

datatype iface = IfaceValue model_value | IfaceOther

record cache_item =
  item_value :: iface
  item_cost :: int
  item_ttl :: duration

datatype api_call = InstantCall string time | RangeCall string range_plan

record prom_state =
  ps_cache :: "fingerprint \<rightharpoonup> cache_item"
  ps_calls :: "api_call list"

definition promCache_Query ::
  "(string \<Rightarrow> 64 word) \<Rightarrow> (string \<Rightarrow> time \<Rightarrow> query_result) \<Rightarrow> prom_state
     \<Rightarrow> string \<Rightarrow> time \<Rightarrow> panic + (query_result \<times> prom_state)" where
  "promCache_Query xxh api st query ts =
     (let hash = xxh query in
      case ps_cache st hash of
        Some item \<Rightarrow>
          (case item_value item of
             IfaceValue v \<Rightarrow> Inr ((v, [], None), st)
           | IfaceOther \<Rightarrow> Inl TypeAssertion)
      | None \<Rightarrow>
          (let st1 = st\<lparr> ps_calls := ps_calls st @ [InstantCall query ts] \<rparr> in
           case api query ts of
             (value, warnings, Some err) \<Rightarrow> Inr ((ValNil, warnings, Some err), st1)
           | (value, warnings, None) \<Rightarrow>
               (case value of
                  ValVector v \<Rightarrow>
                    if length v > 0 \<and> length warnings = 0
                    then Inr ((value, warnings, None),
                           st1\<lparr> ps_cache := (ps_cache st1)(hash \<mapsto>
                             \<lparr> item_value = IfaceValue value, item_cost = 10,
                               item_ttl = 5 * Minute \<rparr>) \<rparr>)
                    else Inr ((value, warnings, None), st1)
                | _ \<Rightarrow> Inr ((value, warnings, None), st1))))"

definition promCache_QueryRange ::
  "(string \<Rightarrow> 64 word) \<Rightarrow> (time \<Rightarrow> string) \<Rightarrow> (string \<Rightarrow> range_plan \<Rightarrow> query_result)
     \<Rightarrow> prom_state \<Rightarrow> string \<Rightarrow> range_plan \<Rightarrow> panic + (query_result \<times> prom_state)" where
  "promCache_QueryRange xxh time_String api st query r =
     (let hash = xxh (query @ time_String (rp_start r) @ time_String (rp_end r)) in
      case ps_cache st hash of
        Some item \<Rightarrow>
          (case item_value item of
             IfaceValue v \<Rightarrow> Inr ((v, [], None), st)
           | IfaceOther \<Rightarrow> Inl TypeAssertion)
      | None \<Rightarrow>
          (let st1 = st\<lparr> ps_calls := ps_calls st @ [RangeCall query r] \<rparr> in
           case api query r of
             (value, warnings, Some err) \<Rightarrow> Inr ((ValNil, warnings, Some err), st1)
           | (value, warnings, None) \<Rightarrow>
               (case value of
                  ValMatrix m \<Rightarrow>
                    if length m > 0 \<and> length warnings = 0
                    then Inr ((value, warnings, None),
                           st1\<lparr> ps_cache := (ps_cache st1)(hash \<mapsto>
                             \<lparr> item_value = IfaceValue value, item_cost = 100,
                               item_ttl = 10 * Minute \<rparr>) \<rparr>)
                    else Inr ((value, warnings, None), st1)
                | _ \<Rightarrow> Inr ((value, warnings, None), st1))))"

section \<open>Backend transport adapter\<close>

text \<open>
  \<open>thanosClient.Do\<close> reads the request body, parses it as a form, rewrites the form
  and forwards the request with the re-encoded body. The library functions
  \<open>url.ParseQuery\<close>, \<open>strconv.ParseFloat\<close> and \<open>Values.Encode\<close> are parameters; the
  first two return a value together with an optional error, as in Go. \<open>Inr\<close> is the
  request handed to the wrapped client, \<open>Inl\<close> the error returned without forwarding.
  A form (\<open>url.Values\<close>) maps a key to its list of values.
\<close>

type_synonym url_values = "string \<rightharpoonup> string list"

definition values_Set :: "url_values \<Rightarrow> string \<Rightarrow> string \<Rightarrow> url_values" where
  "values_Set v key val = v(key \<mapsto> [val])"

definition values_Get :: "url_values \<Rightarrow> string \<Rightarrow> string" where
  "values_Get v key =
     (case v key of None \<Rightarrow> [] | Some vs \<Rightarrow> (case vs of [] \<Rightarrow> [] | x # _ \<Rightarrow> x))"

definition strings_HasSuffix :: "string \<Rightarrow> string \<Rightarrow> bool" where
  "strings_HasSuffix s suffix =
     (length s \<ge> length suffix \<and> drop (length s - length suffix) s = suffix)"

record http_request =
  r_path :: string
  r_body :: "error + string"
  r_contentLength :: "64 word"

definition thanosClient_Do ::
  "(string \<Rightarrow> url_values \<times> error option) \<Rightarrow> (string \<Rightarrow> float64 \<times> error option)
     \<Rightarrow> (url_values \<Rightarrow> string) \<Rightarrow> http_request \<Rightarrow> error + http_request" where
  "thanosClient_Do url_ParseQuery strconv_ParseFloat values_Encode r =
     (case r_body r of
        Inl err \<Rightarrow> Inl err
      | Inr body \<Rightarrow>
         (case url_ParseQuery body of
            (query0, Some err) \<Rightarrow> Inl err
          | (query0, None) \<Rightarrow>
             (let query1 = values_Set query0 ''partial_response'' ''false'';
                  cl1 = r_contentLength r + 23
              in if strings_HasSuffix (r_path r) ''/api/v1/query_range'' then
                   (case strconv_ParseFloat (values_Get query1 ''start'') of
                      (start, Some err) \<Rightarrow> Inl err
                    | (start, None) \<Rightarrow>
                       (case strconv_ParseFloat (values_Get query1 ''end'') of
                          (end, Some err) \<Rightarrow> Inl err
                        | (end, None) \<Rightarrow>
                           (let (query2, cl2) =
                                  (if f_ge (f_sub end start) (Fin (28 * 24 * 60 * 60))
                                   then (values_Set query1 ''max_source_resolution'' ''1h'',
                                         cl1 + 25)
                                   else if f_ge (f_sub end start) (Fin (7 * 24 * 60 * 60))
                                   then (values_Set query1 ''max_source_resolution'' ''5m'',
                                         cl1 + 25)
                                   else (query1, cl1))
                            in Inr (r\<lparr> r_body := Inr (values_Encode query2),
                                      r_contentLength := cl2 \<rparr>))))
                 else Inr (r\<lparr> r_body := Inr (values_Encode query1),
                            r_contentLength := cl1 \<rparr>))))"

section \<open>Burn-rate evaluator\<close>

text \<open>
  For every alert rule \<open>GetMultiBurnrateAlerts\<close> starts three goroutines and waits for
  all of them (\<open>wg.Wait()\<close>) before it appends the rule's result. Each goroutine writes
  one variable of its own (\<open>short\<close>, \<open>long\<close>, \<open>alertstate\<close>), so the joined result is
  the composition of three functions, each of what \<open>promAPI.Query\<close> returned to its
  branch. The backend is a parameter that answers per branch and query string;
  \<open>model.Duration.String\<close> is a parameter too.
\<close>

definition alertstateInactive :: string where
  "alertstateInactive = ''inactive''"

definition alertstatePending :: string where
  "alertstatePending = ''pending''"

definition alertstateFiring :: string where
  "alertstateFiring = ''firing''"

record burnrate =
  br_window :: int
  br_current :: float64
  br_query :: string

record baseAlert =
  ba_severity :: string
  ba_short :: duration
  ba_long :: duration
  ba_for :: duration
  ba_factor :: float64
  ba_queryShort :: string
  ba_queryLong :: string

record multiBurnrateAlert =
  a_severity :: string
  a_for :: int
  a_factor :: float64
  a_short :: burnrate
  a_long :: burnrate
  a_state :: string

datatype branch = ShortBranch | LongBranch | StateBranch

text \<open>The body of the first two goroutines: \<open>b.Current\<close> is set only from a vector of length 1.\<close>

definition burnrateCurrent :: "query_result \<Rightarrow> burnrate \<Rightarrow> burnrate" where
  "burnrateCurrent res b =
     (case res of
        (val, warnings, Some err) \<Rightarrow> b
      | (val, warnings, None) \<Rightarrow>
          (case val of
             ValVector vec \<Rightarrow>
               (case vec of
                  [s] \<Rightarrow> b\<lparr> br_current := s_value s \<rparr>
                | _ \<Rightarrow> b)
           | _ \<Rightarrow> b))"

text \<open>The body of the third goroutine, from the result of the \<open>ALERTS\<close> query on.\<close>

definition alertstateOf :: "query_result \<Rightarrow> string \<Rightarrow> string" where
  "alertstateOf res alertstate =
     (case res of
        (val, warnings, Some err) \<Rightarrow> alertstate
      | (val, warnings, None) \<Rightarrow>
          (case val of
             ValVector vec \<Rightarrow>
               (case vec of
                  [s] \<Rightarrow>
                    if f_ne (s_value s) (Fin 1) then alertstate
                    else
                      (let as = (case s_metric s ''alertstate'' of None \<Rightarrow> [] | Some v \<Rightarrow> v);
                           alertstate1 =
                             (if as = alertstatePending then alertstatePending else alertstate)
                       in if as = alertstateFiring then alertstateFiring else alertstate1)
                | _ \<Rightarrow> alertstate)
           | _ \<Rightarrow> alertstate))"

definition alertsQuery :: "(duration \<Rightarrow> string) \<Rightarrow> string \<Rightarrow> int \<Rightarrow> int \<Rightarrow> string" where
  "alertsQuery duration_String name short long =
     ''ALERTS{slo='' @ [CHR 0x22] @ name @ [CHR 0x22]
       @ '',short='' @ [CHR 0x22] @ duration_String (short * Millisecond) @ [CHR 0x22]
       @ '',long='' @ [CHR 0x22] @ duration_String (long * Millisecond) @ [CHR 0x22] @ ''}''"

definition evalRule ::
  "(branch \<Rightarrow> string \<Rightarrow> query_result) \<Rightarrow> (duration \<Rightarrow> string) \<Rightarrow> string \<Rightarrow> baseAlert
     \<Rightarrow> multiBurnrateAlert" where
  "evalRule promAPI_Query duration_String name ba =
     (let short0 = \<lparr> br_window = duration_Milliseconds (ba_short ba), br_current = Fin (- 1),
                      br_query = ba_queryShort ba \<rparr>;
          long0 = \<lparr> br_window = duration_Milliseconds (ba_long ba), br_current = Fin (- 1),
                     br_query = ba_queryLong ba \<rparr>;
          short = burnrateCurrent (promAPI_Query ShortBranch (br_query short0)) short0;
          long = burnrateCurrent (promAPI_Query LongBranch (br_query long0)) long0;
          alertstate = alertstateOf
             (promAPI_Query StateBranch
                (alertsQuery duration_String name (br_window short0) (br_window long0)))
             alertstateInactive
      in \<lparr> a_severity = ba_severity ba, a_for = duration_Milliseconds (ba_for ba),
           a_factor = ba_factor ba, a_short = short, a_long = long, a_state = alertstate \<rparr>)"

record 'a implResponse =
  resp_code :: nat
  resp_body :: 'a

definition GetMultiBurnrateAlerts_rules ::
  "(branch \<Rightarrow> string \<Rightarrow> query_result) \<Rightarrow> (duration \<Rightarrow> string) \<Rightarrow> string \<Rightarrow> baseAlert list
     \<Rightarrow> multiBurnrateAlert list implResponse \<times> error option" where
  "GetMultiBurnrateAlerts_rules promAPI_Query duration_String name baseAlerts =
     (\<lparr> resp_code = 200,
        resp_body = map (evalRule promAPI_Query duration_String name) baseAlerts \<rparr>, None)"

text \<open>
  The result shape the branches accept: no error and a vector of exactly one sample.
\<close>

definition oneSeries :: "query_result \<Rightarrow> sample option" where
  "oneSeries res =
     (case res of (ValVector [s], warnings, None) \<Rightarrow> Some s | _ \<Rightarrow> None)"

section \<open>Objectives and grouping merge\<close>

text \<open>
  The objective type is declared in another package of the repository. The fields the
  handlers touch are modelled from their use: the two indicators are pointers, so either
  may be nil (\<open>None\<close>), and reading a field through a nil pointer panics.
  \<open>parser.ParseMetricSelector\<close> is a parameter returning the matchers and an optional
  error.
\<close>

datatype matchType = MatchEqual | MatchNotEqual | MatchRegexp | MatchNotRegexp

record matcher =
  m_type :: matchType
  m_name :: string
  m_value :: string

record metric_query =
  mq_name :: string
  mq_labelMatchers :: "matcher list"

record ratioIndicator =
  ri_errors :: metric_query
  ri_total :: metric_query
  ri_grouping :: "string list"

record latencyIndicator =
  li_success :: metric_query
  li_total :: metric_query
  li_grouping :: "string list"

record indicator =
  ind_ratio :: "ratioIndicator option"
  ind_latency :: "latencyIndicator option"

record objective =
  o_target :: float64
  o_window :: duration
  o_indicator :: indicator

datatype 'a outcome = Panicked panic | Failed error | Done 'a

text \<open>
  The set \<open>groupings\<close> of the source is a Go map: it holds each label once, and the order
  in which the remaining labels are appended is not specified. The model keeps the order
  of first occurrence.
\<close>

definition remainingGroupings :: "string list \<Rightarrow> matcher list \<Rightarrow> string list" where
  "remainingGroupings grouping groupingMatchers =
     filter (\<lambda>g. g \<notin> set (map m_name groupingMatchers)) (remdups grouping)"

definition appendMatchers :: "metric_query \<Rightarrow> matcher list \<Rightarrow> metric_query" where
  "appendMatchers q groupingMatchers =
     q\<lparr> mq_labelMatchers := mq_labelMatchers q @ groupingMatchers \<rparr>"

text \<open>Lines 468 to 484 of \<open>GetObjectiveErrorBudget\<close>: the ratio branch.\<close>

definition errorBudget_mergeRatio :: "matcher list \<Rightarrow> objective \<Rightarrow> objective" where
  "errorBudget_mergeRatio groupingMatchers obj =
     (case ind_ratio (o_indicator obj) of
        None \<Rightarrow> obj
      | Some ratio \<Rightarrow>
          obj\<lparr> o_indicator := (o_indicator obj)\<lparr> ind_ratio := Some
            \<lparr> ri_errors = appendMatchers (ri_errors ratio) groupingMatchers,
              ri_total = appendMatchers (ri_total ratio) groupingMatchers,
              ri_grouping = remainingGroupings (ri_grouping ratio) groupingMatchers \<rparr> \<rparr> \<rparr>)"

text \<open>
  Lines 485 to 501: the latency branch. It reads \<open>objective.Indicator.Ratio.Grouping\<close>
  and writes the remaining labels back to \<open>objective.Indicator.Ratio.Grouping\<close>.
\<close>

definition errorBudget_mergeLatency :: "matcher list \<Rightarrow> objective \<Rightarrow> objective outcome" where
  "errorBudget_mergeLatency groupingMatchers obj =
     (case ind_latency (o_indicator obj) of
        None \<Rightarrow> Done obj
      | Some latency \<Rightarrow>
          (case ind_ratio (o_indicator obj) of
             None \<Rightarrow> Panicked NilDereference
           | Some ratio \<Rightarrow>
               Done (obj\<lparr> o_indicator := (o_indicator obj)
                 \<lparr> ind_latency := Some
                     (latency\<lparr> li_success := appendMatchers (li_success latency) groupingMatchers,
                               li_total := appendMatchers (li_total latency) groupingMatchers \<rparr>),
                   ind_ratio := Some
                     (ratio\<lparr> ri_grouping :=
                        remainingGroupings (ri_grouping ratio) groupingMatchers \<rparr>) \<rparr> \<rparr>)))"

definition GetObjectiveErrorBudget_mergeGrouping ::
  "(string \<Rightarrow> matcher list \<times> error option) \<Rightarrow> objective \<Rightarrow> string \<Rightarrow> objective outcome" where
  "GetObjectiveErrorBudget_mergeGrouping parser_ParseMetricSelector obj grouping =
     (if grouping \<noteq> [] then
        (case parser_ParseMetricSelector grouping of
           (groupingMatchers, Some err) \<Rightarrow> Failed err
         | (groupingMatchers, None) \<Rightarrow>
             errorBudget_mergeLatency groupingMatchers
               (errorBudget_mergeRatio groupingMatchers obj))
      else Done obj)"

section \<open>Status aggregator\<close>

text \<open>
  \<open>GetObjectiveStatus\<close> from the result of the totals query on. \<open>statuses\<close> is a Go map
  from fingerprint to a pointer to the status; it is modelled as an association list
  with one entry per key, in the order of first insertion. Go iterates over a map in an
  unspecified order, so only the set of emitted statuses is meaningful, not their order.
  The fingerprint function of a metric is a parameter. Looking up a fingerprint that is
  not in the map gives a nil pointer, and writing through it panics.
\<close>

record availability =
  av_percentage :: float64
  av_total :: float64
  av_errors :: float64

record budget =
  bu_total :: float64
  bu_remaining :: float64
  bu_max :: float64

record objectiveStatus =
  os_labels :: labelset
  os_availability :: availability
  os_budget :: budget

type_synonym statuses = "(fingerprint \<times> objectiveStatus) list"

fun statuses_set :: "fingerprint \<Rightarrow> objectiveStatus \<Rightarrow> statuses \<Rightarrow> statuses" where
  "statuses_set k v [] = [(k, v)]"
| "statuses_set k v ((k', v') # kvs) =
     (if k' = k then (k, v) # kvs else (k', v') # statuses_set k v kvs)"

definition newStatus :: "sample \<Rightarrow> objectiveStatus" where
  "newStatus v =
     \<lparr> os_labels = s_metric v,
       os_availability = \<lparr> av_percentage = Fin 1, av_total = s_value v, av_errors = Fin 0 \<rparr>,
       os_budget = \<lparr> bu_total = Fin 0, bu_remaining = Fin 0, bu_max = Fin 0 \<rparr> \<rparr>"

fun totalsLoop :: "(labelset \<Rightarrow> fingerprint) \<Rightarrow> statuses \<Rightarrow> sample list \<Rightarrow> statuses" where
  "totalsLoop fp st [] = st"
| "totalsLoop fp st (v # vs) =
     totalsLoop fp (statuses_set (fp (s_metric v)) (newStatus v) st) vs"

definition setErrors :: "objectiveStatus \<Rightarrow> sample \<Rightarrow> objectiveStatus" where
  "setErrors s v =
     (let s1 = s\<lparr> os_availability := (os_availability s)\<lparr> av_errors := s_value v \<rparr> \<rparr>
      in s1\<lparr> os_availability := (os_availability s1)\<lparr> av_percentage :=
            f_sub (Fin 1)
              (f_div (av_errors (os_availability s1)) (av_total (os_availability s1))) \<rparr> \<rparr>)"

fun errorsLoop ::
  "(labelset \<Rightarrow> fingerprint) \<Rightarrow> statuses \<Rightarrow> sample list \<Rightarrow> panic + statuses" where
  "errorsLoop fp st [] = Inr st"
| "errorsLoop fp st (v # vs) =
     (case map_of st (fp (s_metric v)) of
        None \<Rightarrow> Inl NilDereference
      | Some s \<Rightarrow> errorsLoop fp (statuses_set (fp (s_metric v)) (setErrors s v) st) vs)"

definition setBudget :: "float64 \<Rightarrow> objectiveStatus \<Rightarrow> objectiveStatus" where
  "setBudget target s =
     (let s1 = s\<lparr> os_budget := (os_budget s)\<lparr> bu_total := f_sub (Fin 1) target \<rparr> \<rparr>;
          s2 = s1\<lparr> os_budget := (os_budget s1)\<lparr> bu_remaining :=
                 f_div (f_sub (bu_total (os_budget s1))
                          (f_div (av_errors (os_availability s1))
                                 (av_total (os_availability s1))))
                       (bu_total (os_budget s1)) \<rparr> \<rparr>
      in s2\<lparr> os_budget := (os_budget s2)\<lparr> bu_max :=
            f_mul (bu_total (os_budget s2)) (av_total (os_availability s2)) \<rparr> \<rparr>)"

definition replaceNaN :: "objectiveStatus \<Rightarrow> objectiveStatus" where
  "replaceNaN s =
     (let s1 = (if math_IsNaN (av_percentage (os_availability s))
                then s\<lparr> os_availability := (os_availability s)\<lparr> av_percentage := Fin 1 \<rparr> \<rparr>
                else s)
      in if math_IsNaN (bu_remaining (os_budget s1))
         then s1\<lparr> os_budget := (os_budget s1)\<lparr> bu_remaining := Fin 1 \<rparr> \<rparr>
         else s1)"

fun finalLoop :: "float64 \<Rightarrow> statuses \<Rightarrow> objectiveStatus list" where
  "finalLoop target [] = []"
| "finalLoop target ((k, s) # rest) =
     (let s1 = setBudget target s
      in if f_eq (av_total (os_availability s1)) (Fin 0) then finalLoop target rest
         else replaceNaN s1 # finalLoop target rest)"

definition GetObjectiveStatus_aggregate ::
  "(labelset \<Rightarrow> fingerprint) \<Rightarrow> float64 \<Rightarrow> model_value \<Rightarrow> model_value
     \<Rightarrow> panic + objectiveStatus list" where
  "GetObjectiveStatus_aggregate fp target totalValue errorsValue =
     (case totalValue of
        ValVector totals \<Rightarrow>
          (let statuses = totalsLoop fp [] totals in
           case errorsValue of
             ValVector errs \<Rightarrow>
               (case errorsLoop fp statuses errs of
                  Inl p \<Rightarrow> Inl p
                | Inr statuses' \<Rightarrow> Inr (finalLoop target statuses'))
           | _ \<Rightarrow> Inl TypeAssertion)
      | _ \<Rightarrow> Inl TypeAssertion)"

section \<open>Matrix transform\<close>

text \<open>
  \<open>matrixToValues\<close> returns a slice of rows: row 0 holds the timestamps, row \<open>j + 1\<close> the
  values of series \<open>j\<close>. A nil or freshly made slice is the empty list or a list of
  zeros. \<open>pairs\<close>, a Go map from the timestamp in seconds to a row of one value per
  series, is an association list with one entry per key; Go iterates over it in an
  unspecified order, which the sort that follows makes irrelevant, and the model takes
  the order of first insertion.
\<close>

type_synonym pairs = "(int \<times> float64 list) list"

fun pairs_set :: "int \<Rightarrow> float64 list \<Rightarrow> pairs \<Rightarrow> pairs" where
  "pairs_set t fs [] = [(t, fs)]"
| "pairs_set t fs ((t', fs') # rest) =
     (if t' = t then (t, fs) # rest else (t', fs') # pairs_set t fs rest)"

text \<open>
  The body of the inner loop (lines 942 to 948) for the sample \<open>pair\<close> of series \<open>i\<close>:
  the row of \<open>t\<close> is created with zeros when it is missing (\<open>rowAt\<close> is the row that
  \<open>pairs[t]\<close> denotes after that), and entry \<open>i\<close> is written unless the value is NaN.
\<close>

definition rowAt :: "nat \<Rightarrow> pairs \<Rightarrow> int \<Rightarrow> float64 list" where
  "rowAt series ps t =
     (case map_of ps t of None \<Rightarrow> replicate series (Fin 0) | Some fs \<Rightarrow> fs)"

definition addPair :: "nat \<Rightarrow> nat \<Rightarrow> pairs \<Rightarrow> samplePair \<Rightarrow> pairs" where
  "addPair series i ps pair =
     (let t = p_timestamp pair sdiv 1000;
          row = rowAt series ps t
      in if \<not> math_IsNaN (p_value pair)
         then pairs_set t (row[i := p_value pair]) ps
         else pairs_set t row ps)"

fun streamsLoop :: "nat \<Rightarrow> nat \<Rightarrow> pairs \<Rightarrow> sampleStream list \<Rightarrow> pairs" where
  "streamsLoop series i ps [] = ps"
| "streamsLoop series i ps (stream # rest) =
     streamsLoop series (Suc i) (foldl (addPair series i) ps (st_values stream)) rest"

text \<open>The methods of \<open>values\<close>, the \<open>sort.Interface\<close> over the rows.\<close>

definition values_Len :: "float64 list list \<Rightarrow> nat" where
  "values_Len v = length (v ! 0)"

definition values_Less :: "float64 list list \<Rightarrow> nat \<Rightarrow> nat \<Rightarrow> bool" where
  "values_Less v i j = f_lt (v ! 0 ! i) (v ! 0 ! j)"

definition values_Swap :: "float64 list list \<Rightarrow> nat \<Rightarrow> nat \<Rightarrow> float64 list list" where
  "values_Swap v i j = map (\<lambda>row. row[i := row ! j, j := row ! i]) v"

text \<open>
  \<open>sort.Sort\<close> is the standard library's. It reaches the data only through \<open>Len\<close>,
  \<open>Less\<close> and \<open>Swap\<close>; it is modelled by the library's insertion sort
  (\<open>for i := 1; i < n; i++ { for j := i; j > 0 && Less(j, j-1); j-- { Swap(j, j-1) } }\<close>).
  The keys compared here are the pairwise distinct keys of a map, so every correct sort
  ends in the same arrangement.
\<close>

fun insertDown :: "float64 list list \<Rightarrow> nat \<Rightarrow> float64 list list" where
  "insertDown v 0 = v"
| "insertDown v (Suc j) =
     (if values_Less v (Suc j) j then insertDown (values_Swap v (Suc j) j) j else v)"

definition sort_Sort :: "float64 list list \<Rightarrow> float64 list list" where
  "sort_Sort v = foldl insertDown v [1..<values_Len v]"

definition matrixToValues :: "sampleStream list \<Rightarrow> float64 list list" where
  "matrixToValues m =
     (let series = length m in
      if series = 0 then []
      else if series = 1 then
        (let stream = m ! 0 in
         [map (\<lambda>pair. float64_of_int (p_timestamp pair sdiv 1000)) (st_values stream),
          map (\<lambda>pair. if \<not> math_IsNaN (p_value pair) then p_value pair else Fin 0)
            (st_values stream)])
      else
        (let ps = streamsLoop series 0 [] m;
             vs = map (\<lambda>(t, fs). float64_of_int t) ps
                  # map (\<lambda>j. map (\<lambda>(t, fs). fs ! j) ps) [0..<series]
         in sort_Sort vs))"

text \<open>
  For stating the properties: the whole second of a sample, the seconds that occur in a
  matrix, and the value a series contributes to a second (its last sample there that is
  not NaN, or 0).
\<close>

definition secondOf :: "samplePair \<Rightarrow> int" where
  "secondOf pair = p_timestamp pair sdiv 1000"

definition secondsOf :: "sampleStream list \<Rightarrow> int set" where
  "secondsOf m = (\<Union>stream \<in> set m. secondOf ` set (st_values stream))"

definition cellValue :: "samplePair list \<Rightarrow> int \<Rightarrow> float64" where
  "cellValue vals t =
     (case filter (\<lambda>pair. secondOf pair = t \<and> \<not> math_IsNaN (p_value pair)) vals of
        [] \<Rightarrow> Fin 0
      | qs \<Rightarrow> p_value (last qs))"

text \<open>
  The same sort seen on the list of columns: \<open>toRows\<close> lays a list of columns
  \<open>(t, fs)\<close> out as rows, as lines 952 to 963 do, and \<open>sortColumns\<close> is the insertion
  sort acting on the columns. The properties below show that \<open>sort_Sort\<close> on the rows
  is \<open>sortColumns\<close> on the columns.
\<close>

definition toRows :: "nat \<Rightarrow> pairs \<Rightarrow> float64 list list" where
  "toRows series ps =
     map (\<lambda>(t, fs). float64_of_int t) ps # map (\<lambda>j. map (\<lambda>(t, fs). fs ! j) ps) [0..<series]"

fun insertDownColumns :: "pairs \<Rightarrow> nat \<Rightarrow> pairs" where
  "insertDownColumns ps 0 = ps"
| "insertDownColumns ps (Suc j) =
     (if fst (ps ! Suc j) < fst (ps ! j)
      then insertDownColumns (ps[Suc j := ps ! j, j := ps ! Suc j]) j
      else ps)"

definition sortColumns :: "pairs \<Rightarrow> pairs" where
  "sortColumns ps = foldl insertDownColumns ps [1..<length ps]"

text \<open>The number of distinct sample timestamps of a matrix, in milliseconds as sampled.\<close>

definition distinctTimestamps :: "sampleStream list \<Rightarrow> nat" where
  "distinctTimestamps m = card (\<Union>stream \<in> set m. p_timestamp ` set (st_values stream))"

section \<open>Properties of the rounding\<close>

lemma bitLength_bounds:
  "n > 0 \<Longrightarrow> 2 ^ (bitLength n - 1) \<le> n \<and> n < 2 ^ bitLength n"
proof (induction n rule: bitLength.induct)
  case (1 n)
  show ?case
  proof (cases "n div 2 = 0")
    case True
    then have "n = 1"
      using "1.prems" by (simp add: div_eq_0_iff)
    then show ?thesis
      by (simp add: bitLength.simps)
  next
    case False
    then have ih: "2 ^ (bitLength (n div 2) - 1) \<le> n div 2" "n div 2 < 2 ^ bitLength (n div 2)"
      using "1.IH" "1.prems" by simp_all
    have pos: "bitLength (n div 2) > 0"
      using False by (simp add: bitLength.simps [of "n div 2"])
    have b: "bitLength n = Suc (bitLength (n div 2))"
      using "1.prems" by (simp add: bitLength.simps [of n])
    have "2 * 2 ^ (bitLength (n div 2) - 1) \<le> n"
      using ih(1) by linarith
    moreover have "2 * 2 ^ (bitLength (n div 2) - 1) = (2 :: nat) ^ bitLength (n div 2)"
      using pos by (cases "bitLength (n div 2)") simp_all
    moreover have "n < 2 * 2 ^ bitLength (n div 2)"
      using ih(2) by linarith
    ultimately show ?thesis
      by (simp add: b)
  qed
qed

lemma pow2_le_real:
  assumes "2 ^ k \<le> (n :: nat)"
  shows "(2 :: real) ^ k \<le> real n"
  using of_nat_mono [OF assms, where 'a = real] by simp

lemma real_less_pow2:
  assumes "(n :: nat) < 2 ^ k"
  shows "real n + 1 \<le> (2 :: real) ^ k"
proof -
  have "n + 1 \<le> 2 ^ k"
    using assms by simp
  then show ?thesis
    using of_nat_mono [of "n + 1" "2 ^ k", where 'a = real] by simp
qed

lemma exponentOf_bounds:
  assumes "x \<noteq> 0"
  shows "scale2 1 (exponentOf x) \<le> \<bar>x\<bar> \<and> \<bar>x\<bar> < scale2 1 (exponentOf x + 1)"
proof (cases "\<bar>x\<bar> \<ge> 1")
  case True
  define n where "n = nat \<lfloor>\<bar>x\<bar>\<rfloor>"
  define L where "L = bitLength n"
  have n: "n > 0" "real n \<le> \<bar>x\<bar>" "\<bar>x\<bar> < real n + 1"
    using True by (simp_all add: n_def le_floor_iff)
  have b: "2 ^ (L - 1) \<le> n" "n < 2 ^ L"
    using bitLength_bounds [OF n(1)] by (simp_all add: L_def)
  have pos: "L > 0"
    using n(1) by (simp add: L_def bitLength.simps [of n])
  have e: "exponentOf x = int L - 1"
    using True by (simp add: exponentOf_def n_def L_def)
  have lo: "(2 :: real) ^ (L - 1) \<le> \<bar>x\<bar>"
    using pow2_le_real [OF b(1)] n(2) by linarith
  have hi: "\<bar>x\<bar> < (2 :: real) ^ L"
    using real_less_pow2 [OF b(2)] n(3) by linarith
  have "nat (int L - 1) = L - 1"
    by simp
  then show ?thesis
    using lo hi pos by (simp add: e scale2_def)
next
  case False
  define y where "y = 1 / \<bar>x\<bar>"
  define n where "n = nat (\<lceil>y\<rceil> - 1)"
  define L where "L = bitLength n"
  have x: "0 < \<bar>x\<bar>" "\<bar>x\<bar> < 1"
    using assms False by simp_all
  then have y: "y > 1"
    by (simp add: y_def)
  then have c: "\<lceil>y\<rceil> \<ge> 2"
    by (simp add: le_ceiling_iff)
  have n: "n > 0"
    using c by (simp add: n_def)
  have "real n = of_int \<lceil>y\<rceil> - 1"
    using c by (simp add: n_def)
  then have ny: "real n < y" "y \<le> real n + 1"
    by linarith+
  have b: "2 ^ (L - 1) \<le> n" "n < 2 ^ L"
    using bitLength_bounds [OF n] by (simp_all add: L_def)
  have pos: "L > 0"
    using n by (simp add: L_def bitLength.simps [of n])
  have e: "exponentOf x = - int L"
    using False by (simp add: exponentOf_def n_def L_def y_def)
  have "y \<le> 2 ^ L"
    using real_less_pow2 [OF b(2)] ny(2) by linarith
  then have lo: "1 / 2 ^ L \<le> \<bar>x\<bar>"
    using x(1) by (simp add: y_def field_simps)
  have "(2 :: real) ^ (L - 1) < y"
    using pow2_le_real [OF b(1)] ny(1) by linarith
  then have hi: "\<bar>x\<bar> < 1 / 2 ^ (L - 1)"
    using x(1) by (simp add: y_def field_simps)
  show ?thesis
  proof (cases "L = 1")
    case True
    then show ?thesis
      using lo hi by (simp add: e scale2_def)
  next
    case False
    then have "nat (int L - 1) = L - 1" "\<not> 1 - int L \<ge> 0"
      using pos by simp_all
    then show ?thesis
      using lo hi pos by (simp add: e scale2_def)
  qed
qed

lemma round64_not_NaN [simp]: "round64 x \<noteq> NaN"
  by (simp add: round64_def Let_def)

lemma roundHalfEven_near: "\<bar>real_of_int (roundHalfEven r) - r\<bar> \<le> 1 / 2"
proof -
  have "real_of_int \<lfloor>r\<rfloor> \<le> r" "r < real_of_int \<lfloor>r\<rfloor> + 1"
    by linarith+
  then show ?thesis
    by (auto simp: roundHalfEven_def Let_def)
qed

lemma scale2_inverse: "scale2 (scale2 x (- q)) q = x"
  by (auto simp: scale2_def)

lemma scale2_diff: "scale2 a q - scale2 b q = scale2 (a - b) q"
  by (simp add: scale2_def algebra_simps diff_divide_distrib)

lemma scale2_abs: "\<bar>scale2 a q\<bar> = scale2 \<bar>a\<bar> q"
  by (simp add: scale2_def abs_mult)

lemma scale2_mono: "a \<le> b \<Longrightarrow> scale2 a q \<le> scale2 b q"
  by (simp add: scale2_def divide_right_mono)

text \<open>A finite result of \<open>round64\<close> is within half a unit in the last place of its argument.\<close>

lemma round64_half_ulp:
  assumes "round64 x = Fin y"
  shows "\<bar>y - x\<bar> \<le> scale2 (1 / 2) (max (exponentOf x) (- 1022) - 52)"
proof (cases "x = 0")
  case True
  then show ?thesis
    using assms by (auto simp: round64_def scale2_def)
next
  case False
  define q where "q = max (exponentOf x) (- 1022) - 52"
  define r where "r = scale2 \<bar>x\<bar> (- q)"
  define m where "m = roundHalfEven r"
  have y: "y = (if x > 0 then scale2 (of_int m) q else - scale2 (of_int m) q)"
    using assms False
    by (simp add: round64_def Let_def q_def r_def m_def split: if_splits)
  have ax: "\<bar>x\<bar> = scale2 r q"
    by (simp add: r_def scale2_inverse)
  have "\<bar>scale2 (of_int m) q - \<bar>x\<bar>\<bar> = scale2 \<bar>of_int m - r\<bar> q"
    by (simp only: ax scale2_diff scale2_abs)
  also have "\<dots> \<le> scale2 (1 / 2) q"
    using roundHalfEven_near [of r] by (intro scale2_mono) (simp add: m_def)
  finally have d: "\<bar>scale2 (of_int m) q - \<bar>x\<bar>\<bar> \<le> scale2 (1 / 2) q" .
  have "\<bar>y - x\<bar> = \<bar>scale2 (of_int m) q - \<bar>x\<bar>\<bar>"
    using False by (cases "x > 0") (simp_all add: y)
  then show ?thesis
    using d by (simp add: q_def)
qed

lemma scale2_powi: "scale2 x q = x * 2 powi q"
  by (simp add: scale2_def power_int_def power_inverse [symmetric] field_simps)

lemma roundHalfEven_bounds: "0 \<le> r \<Longrightarrow> r < 2 ^ 53 \<Longrightarrow> 0 \<le> roundHalfEven r \<and> roundHalfEven r \<le> 2 ^ 53"
proof -
  assume r: "0 \<le> r" "r < 2 ^ 53"
  have "\<lfloor>r\<rfloor> < 2 ^ 53"
    using r(2) by (simp add: floor_less_iff)
  moreover have "0 \<le> \<lfloor>r\<rfloor>"
    using r(1) by simp
  ultimately show ?thesis
    by (auto simp: roundHalfEven_def Let_def)
qed

text \<open>
  A finite result of \<open>round64\<close> is a binary64 value: a significand of at most 53 bits
  times a power of two that is not below \<open>2^-1074\<close>.
\<close>

lemma round64_representable:
  assumes "round64 x = Fin y"
  shows "\<exists>m q. \<bar>y\<bar> = scale2 (of_int m) q \<and> 0 \<le> m \<and> m \<le> 2 ^ 53 \<and> - 1074 \<le> q
           \<and> scale2 (of_int m) q < 2 ^ 1024"
proof (cases "x = 0")
  case True
  then have "y = 0"
    using assms by (simp add: round64_def)
  then show ?thesis
    by (intro exI [of _ 0]) (simp add: scale2_def)
next
  case False
  define e where "e = exponentOf x"
  define q where "q = max e (- 1022) - 52"
  define r where "r = scale2 \<bar>x\<bar> (- q)"
  define m where "m = roundHalfEven r"
  have y: "\<bar>y\<bar> = \<bar>scale2 (of_int m) q\<bar>" and fin: "scale2 (of_int m) q < 2 ^ 1024"
    using assms False
    by (auto simp: round64_def Let_def e_def q_def r_def m_def split: if_splits)
  have "\<bar>x\<bar> < 2 powi (e + 1)"
    using exponentOf_bounds [OF False] by (simp add: e_def scale2_powi)
  then have "r < 2 powi (e + 1) * 2 powi (- q)"
    by (simp add: r_def scale2_powi)
  also have "\<dots> = 2 powi (e + 1 - q)"
    by (simp add: power_int_add [symmetric])
  also have "\<dots> \<le> 2 powi 53"
    by (intro power_int_increasing) (simp_all add: q_def)
  finally have r53: "r < 2 ^ 53"
    by simp
  have r0: "0 \<le> r"
    by (simp add: r_def scale2_powi)
  have m: "0 \<le> m" "m \<le> 2 ^ 53"
    using roundHalfEven_bounds [OF r0 r53] by (simp_all add: m_def)
  then have "0 \<le> scale2 (of_int m) q"
    by (simp add: scale2_powi)
  then have "\<bar>y\<bar> = scale2 (of_int m) q"
    using y by simp
  moreover have "- 1074 \<le> q"
    by (simp add: q_def)
  ultimately show ?thesis
    using m fin by blast
qed

text \<open>
  Some values: the binary64 nearest to \<open>0.99\<close> and to \<open>-0.3\<close>, a tie that goes down to the
  even significand and one that goes up, and the two sides of the overflow threshold.
\<close>

lemmas round64_eval =
  round64_def exponentOf_def scale2_def roundHalfEven_def bitLength.simps Let_def

lemma round64_values:
  "round64 (99 / 100) = Fin (4458563631096791 / 4503599627370496)"
  "round64 (- (3 / 10)) = Fin (- (5404319552844595 / 18014398509481984))"
  "round64 (1 + 1 / 2 ^ 53) = Fin 1"
  "round64 (1 + 3 / 2 ^ 53) = Fin (1 + 1 / 2 ^ 51)"
  by (simp_all add: round64_eval)

lemma round64_overflow:
  "round64 (2 ^ 1024 - 2 ^ 970 - 1) = Fin (2 ^ 1024 - 2 ^ 971)"
  "round64 (2 ^ 1024 - 2 ^ 970) = PInf"
  by (simp_all add: round64_eval)

section \<open>Properties of the range planner\<close>

lemma sint32_bounds: "- (2 ^ 31) \<le> sint (w :: 32 word) \<and> sint w < 2 ^ 31"
  using sint_ge [of w] sint_lt [of w] by simp

lemma time_Sub_Unix:
  "time_Sub (time_Unix (sint (e :: 32 word))) (time_Unix (sint (s :: 32 word)))
     = (sint e - sint s) * Second"
proof -
  have "- (2 ^ 31) \<le> sint e" "sint e < 2 ^ 31" "- (2 ^ 31) \<le> sint s" "sint s < 2 ^ 31"
    using sint32_bounds by blast+
  then have "- (2 ^ 32) < sint e - sint s" "sint e - sint s < 2 ^ 32"
    by simp_all
  then have "- (2 ^ 32) * 1000000000 < (sint e - sint s) * 1000000000"
    "(sint e - sint s) * 1000000000 < 2 ^ 32 * 1000000000"
    by simp_all
  then show ?thesis
    by (simp add: time_Sub_def time_Unix_def Second_def maxDuration_def minDuration_def
        Let_def algebra_simps)
qed

lemma time_Sub_last_hour: "time_Sub now (time_Add now (-1 * Hour)) = Hour"
  by (simp add: time_Sub_def time_Add_def Hour_def Minute_def Second_def
      maxDuration_def minDuration_def Let_def)

lemma requestRange_span:
  "time_Sub (rp_end (requestRange now s e)) (rp_start (requestRange now s e))
     = rp_end (requestRange now s e) - rp_start (requestRange now s e)"
proof (cases "s \<noteq> 0 \<and> e \<noteq> 0")
  case True
  then show ?thesis
    using time_Sub_Unix [of e s]
    by (simp add: requestRange_def Let_def time_Unix_def algebra_simps)
next
  case False
  then show ?thesis
    using time_Sub_last_hour [of now]
    by (auto simp: requestRange_def Let_def time_Add_def)
qed

lemma requestRange_step:
  "rp_step (requestRange now s e)
     = (rp_end (requestRange now s e) - rp_start (requestRange now s e)) sdiv 1000"
proof -
  have "rp_step (requestRange now s e)
      = time_Sub (rp_end (requestRange now s e)) (rp_start (requestRange now s e)) sdiv 1000"
    by (simp add: requestRange_def Let_def)
  then show ?thesis
    by (simp only: requestRange_span)
qed

lemma timeRangeFor_table:
  "(d < 12 * Hour \<longrightarrow> timeRangeFor d = 5 * Minute)
   \<and> (12 * Hour \<le> d \<and> d < 24 * Hour \<longrightarrow> timeRangeFor d = 15 * Minute)
   \<and> (24 * Hour \<le> d \<and> d < 7 * 24 * Hour \<longrightarrow> timeRangeFor d = 30 * Minute)
   \<and> (7 * 24 * Hour \<le> d \<and> d < 28 * 24 * Hour \<longrightarrow> timeRangeFor d = Hour)
   \<and> (28 * 24 * Hour \<le> d \<longrightarrow> timeRangeFor d = 3 * Hour)"
  by (simp add: timeRangeFor_def Hour_def Minute_def Second_def)

text \<open>
  Claim C7. For \<open>GetREDRequests\<close> and \<open>GetREDErrors\<close> with effective range
  \<open>[start, end]\<close>, the step handed to the backend is \<open>(end - start) / 1000\<close> and the
  \<open>timeRange\<close> handed to query generation is 5m below 12h, 15m in [12h, 24h), 30m in
  [24h, 7d), 1h in [7d, 28d) and 3h from 28d on; in particular a span of 2h gives 5m and
  a span of 30d gives 3h.
\<close>

theorem C7_range_planner:
  fixes now :: time and s e :: "32 word"
  assumes "p = GetREDRequests_plan now s e \<or> p = GetREDErrors_plan now s e"
  defines "d \<equiv> rp_end (red_range p) - rp_start (red_range p)"
  shows "rp_step (red_range p) = d sdiv 1000
    \<and> (d < 12 * Hour \<longrightarrow> red_timeRange p = 5 * Minute)
    \<and> (12 * Hour \<le> d \<and> d < 24 * Hour \<longrightarrow> red_timeRange p = 15 * Minute)
    \<and> (24 * Hour \<le> d \<and> d < 7 * 24 * Hour \<longrightarrow> red_timeRange p = 30 * Minute)
    \<and> (7 * 24 * Hour \<le> d \<and> d < 28 * 24 * Hour \<longrightarrow> red_timeRange p = Hour)
    \<and> (28 * 24 * Hour \<le> d \<longrightarrow> red_timeRange p = 3 * Hour)
    \<and> (d = 2 * Hour \<longrightarrow> red_timeRange p = 5 * Minute)
    \<and> (d = 30 * 24 * Hour \<longrightarrow> red_timeRange p = 3 * Hour)"
proof -
  have r: "red_range p = requestRange now s e"
    using assms(1) by (auto simp: GetREDRequests_plan_def GetREDErrors_plan_def Let_def)
  have t: "red_timeRange p = timeRangeFor d"
    using assms(1) requestRange_span [of now s e]
    by (auto simp: GetREDRequests_plan_def GetREDErrors_plan_def Let_def d_def)
  have st: "rp_step (red_range p) = d sdiv 1000"
    using requestRange_step [of now s e] by (simp add: r d_def)
  have two: "d = 2 * Hour \<longrightarrow> timeRangeFor d = 5 * Minute"
    by (simp add: timeRangeFor_def Hour_def Minute_def Second_def)
  have thirty: "d = 30 * 24 * Hour \<longrightarrow> timeRangeFor d = 3 * Hour"
    by (simp add: timeRangeFor_def Hour_def Minute_def Second_def)
  show ?thesis
    using st timeRangeFor_table [of d] two thirty by (simp only: t) blast
qed

theorem C7_range_planner_witness:
  "rp_step (red_range (GetREDRequests_plan 0 1000 8200)) = 7200000000
   \<and> red_timeRange (GetREDRequests_plan 0 1000 8200) = 5 * Minute
   \<and> rp_step (red_range (GetREDErrors_plan 0 1000 2593000)) = 2592000000000
   \<and> red_timeRange (GetREDErrors_plan 0 1000 2593000) = 3 * Hour"
proof -
  have a: "rp_end (red_range (GetREDRequests_plan 0 1000 8200))
         - rp_start (red_range (GetREDRequests_plan 0 1000 8200)) = 2 * Hour"
    by (simp add: GetREDRequests_plan_def requestRange_def time_Unix_def Let_def
        Hour_def Minute_def Second_def)
  have b: "rp_end (red_range (GetREDErrors_plan 0 1000 2593000))
         - rp_start (red_range (GetREDErrors_plan 0 1000 2593000)) = 30 * 24 * Hour"
    by (simp add: GetREDErrors_plan_def requestRange_def time_Unix_def Let_def
        Hour_def Minute_def Second_def)
  have c: "(2 * Hour) sdiv 1000 = 7200000000"
    "(720 * Hour) sdiv 1000 = 2592000000000"
    by (simp_all add: Hour_def Minute_def Second_def signed_divide_int_def)
  show ?thesis
    using C7_range_planner [of "GetREDRequests_plan 0 1000 8200" 0 1000 8200]
      C7_range_planner [of "GetREDErrors_plan 0 1000 2593000" 0 1000 2593000]
    by (simp add: a b c)
qed

text \<open>
  Claim C10. In \<open>GetObjectiveErrorBudget\<close>, \<open>GetREDRequests\<close> and \<open>GetREDErrors\<close> the
  caller's start and end timestamps are used only when both are non-zero; when either is
  zero (also when only one is given) the range is the last hour, \<open>[now - 1h, now]\<close>.
\<close>

theorem C10_default_range:
  fixes now :: time and s e :: "32 word"
  assumes "r = GetObjectiveErrorBudget_range now s e
         \<or> r = red_range (GetREDRequests_plan now s e)
         \<or> r = red_range (GetREDErrors_plan now s e)"
  shows "(s \<noteq> 0 \<and> e \<noteq> 0 \<longrightarrow>
            rp_start r = time_Unix (sint s) \<and> rp_end r = time_Unix (sint e))
       \<and> (s = 0 \<or> e = 0 \<longrightarrow> rp_start r = now - Hour \<and> rp_end r = now)"
proof -
  have "r = requestRange now s e"
    using assms
    by (auto simp: GetObjectiveErrorBudget_range_def GetREDRequests_plan_def
        GetREDErrors_plan_def Let_def)
  then show ?thesis
    by (auto simp: requestRange_def Let_def time_Add_def)
qed

theorem C10_default_range_witness:
  "rp_start (GetObjectiveErrorBudget_range 5000000000000 1000 8200) = 1000 * Second
   \<and> rp_end (GetObjectiveErrorBudget_range 5000000000000 1000 8200) = 8200 * Second
   \<and> rp_start (red_range (GetREDRequests_plan 5000000000000 1000 0)) = 5000000000000 - Hour
   \<and> rp_end (red_range (GetREDRequests_plan 5000000000000 1000 0)) = 5000000000000
   \<and> rp_start (red_range (GetREDErrors_plan 5000000000000 0 8200)) = 5000000000000 - Hour
   \<and> rp_end (red_range (GetREDErrors_plan 5000000000000 0 8200)) = 5000000000000"
  using C10_default_range [of "GetObjectiveErrorBudget_range 5000000000000 1000 8200"
      5000000000000 1000 8200]
    C10_default_range [of "red_range (GetREDRequests_plan 5000000000000 1000 0)"
      5000000000000 1000 0]
    C10_default_range [of "red_range (GetREDErrors_plan 5000000000000 0 8200)"
      5000000000000 0 8200]
  by (simp add: time_Unix_def)

section \<open>Properties of the query cache\<close>

lemma promCache_Query_hit:
  assumes "ps_cache st (xxh query) = Some item" "item_value item = IfaceValue v"
  shows "promCache_Query xxh api st query ts = Inr ((v, [], None), st)"
  using assms by (simp add: promCache_Query_def)

lemma promCache_QueryRange_hit:
  assumes "ps_cache st (xxh (query @ tS (rp_start r) @ tS (rp_end r))) = Some item"
    "item_value item = IfaceValue v"
  shows "promCache_QueryRange xxh tS api st query r = Inr ((v, [], None), st)"
  using assms by (simp add: promCache_QueryRange_def)







text \<open>
  Claim C9, as stated: on a cache hit whose stored value does not have the type the
  path expects, the lookup is treated as a miss and the backend is queried, without a
  panic. The code returns every hit that is a \<open>model.Value\<close> as it is, whatever its
  kind, and never turns a hit into a miss.
\<close>

theorem C9_cache_hit_returned:
  "(ps_cache st (xxh query) = Some item \<and> item_value item = IfaceValue v \<longrightarrow>
      promCache_Query xxh api st query ts = Inr ((v, [], None), st))
   \<and> (ps_cache st (xxh (query @ tS (rp_start r) @ tS (rp_end r))) = Some item
        \<and> item_value item = IfaceValue v \<longrightarrow>
      promCache_QueryRange xxh tS rapi st query r = Inr ((v, [], None), st))"
  using promCache_Query_hit [of st xxh query item v api ts]
    promCache_QueryRange_hit [of st xxh query tS r item v rapi]
  by blast

theorem C9_cache_hit_returned_witness:
  "promCache_Query (\<lambda>q. 7) (\<lambda>q t. (ValVector [], [], None))
      \<lparr> ps_cache = [7 \<mapsto> \<lparr> item_value = IfaceValue (ValVector
            [\<lparr> s_metric = Map.empty, s_value = Fin 1, s_timestamp = 0 \<rparr>]),
            item_cost = 10, item_ttl = 5 * Minute \<rparr>], ps_calls = [] \<rparr> ''up'' 0
    = Inr ((ValVector [\<lparr> s_metric = Map.empty, s_value = Fin 1, s_timestamp = 0 \<rparr>], [], None),
      \<lparr> ps_cache = [7 \<mapsto> \<lparr> item_value = IfaceValue (ValVector
            [\<lparr> s_metric = Map.empty, s_value = Fin 1, s_timestamp = 0 \<rparr>]),
            item_cost = 10, item_ttl = 5 * Minute \<rparr>], ps_calls = [] \<rparr>)"
  using C9_cache_hit_returned [where xxh = "\<lambda>q. 7" and query = "''up''"
      and st = "\<lparr> ps_cache = [7 \<mapsto> \<lparr> item_value = IfaceValue (ValVector
            [\<lparr> s_metric = Map.empty, s_value = Fin 1, s_timestamp = 0 \<rparr>]),
            item_cost = 10, item_ttl = 5 * Minute \<rparr>], ps_calls = [] \<rparr>"
      and item = "\<lparr> item_value = IfaceValue (ValVector
            [\<lparr> s_metric = Map.empty, s_value = Fin 1, s_timestamp = 0 \<rparr>]),
            item_cost = 10, item_ttl = 5 * Minute \<rparr>"
      and v = "ValVector [\<lparr> s_metric = Map.empty, s_value = Fin 1, s_timestamp = 0 \<rparr>]"
      and api = "\<lambda>q t. (ValVector [], [], None)" and ts = 0]
  by simp

theorem C9_type_mismatch_counterexample:
  "promCache_Query (\<lambda>q. 7) (\<lambda>q t. (ValVector [], [], None))
      \<lparr> ps_cache = [7 \<mapsto> \<lparr> item_value = IfaceValue (ValMatrix
            [\<lparr> st_metric = Map.empty, st_values = [] \<rparr>]),
            item_cost = 100, item_ttl = 10 * Minute \<rparr>], ps_calls = [] \<rparr> ''up'' 0
    = Inr ((ValMatrix [\<lparr> st_metric = Map.empty, st_values = [] \<rparr>], [], None),
      \<lparr> ps_cache = [7 \<mapsto> \<lparr> item_value = IfaceValue (ValMatrix
            [\<lparr> st_metric = Map.empty, st_values = [] \<rparr>]),
            item_cost = 100, item_ttl = 10 * Minute \<rparr>], ps_calls = [] \<rparr>)
   \<and> promCache_Query (\<lambda>q. 7) (\<lambda>q t. (ValVector [], [], None))
      \<lparr> ps_cache = [7 \<mapsto> \<lparr> item_value = IfaceOther,
            item_cost = 100, item_ttl = 10 * Minute \<rparr>], ps_calls = [] \<rparr> ''up'' 0
    = Inl TypeAssertion"
  by (simp add: promCache_Query_def)

section \<open>Properties of the transport adapter\<close>

lemma thanosClient_Do_forwarded:
  assumes "thanosClient_Do pq pf enc r = Inr r'"
  obtains body q0 q' where "r_body r = Inr body" "pq body = (q0, None)"
    "r_body r' = Inr (enc q')" "q' ''partial_response'' = Some [''false'']"
    "\<forall>k. k \<noteq> ''partial_response'' \<and> k \<noteq> ''max_source_resolution'' \<longrightarrow> q' k = q0 k"
  using assms
  by (auto simp: thanosClient_Do_def Let_def values_Set_def
      split: sum.splits prod.splits option.splits if_splits)

lemma values_Get_Set_other:
  "k \<noteq> key \<Longrightarrow> values_Get (values_Set v key val) k = values_Get v k"
  by (simp add: values_Get_def values_Set_def)

lemma values_Get_Set_same: "values_Get (values_Set v key val) key = val"
  by (simp add: values_Get_def values_Set_def)

lemma f_lt_not_ge: "f_lt x y \<Longrightarrow> \<not> f_ge x y"
  by (cases x; cases y) (auto simp: f_ge_def f_eq_def)

lemma thanosClient_Do_range:
  assumes "r_body r = Inr body" "pq body = (q0, None)"
    and "strings_HasSuffix (r_path r) ''/api/v1/query_range''"
    and "pf (values_Get q0 ''start'') = (start, None)"
    and "pf (values_Get q0 ''end'') = (end, None)"
  shows "thanosClient_Do pq pf enc r =
     Inr (r\<lparr> r_body := Inr (enc
              (if f_ge (f_sub end start) (Fin 2419200)
               then (q0(''partial_response'' \<mapsto> [''false'']))(''max_source_resolution'' \<mapsto> [''1h''])
               else if f_ge (f_sub end start) (Fin 604800)
               then (q0(''partial_response'' \<mapsto> [''false'']))(''max_source_resolution'' \<mapsto> [''5m''])
               else q0(''partial_response'' \<mapsto> [''false'']))),
            r_contentLength :=
              (if f_ge (f_sub end start) (Fin 604800) then r_contentLength r + 48
               else r_contentLength r + 23) \<rparr>)"
proof -
  have g: "values_Get (values_Set q0 ''partial_response'' ''false'') ''start'' = values_Get q0 ''start''"
    "values_Get (values_Set q0 ''partial_response'' ''false'') ''end'' = values_Get q0 ''end''"
    by (simp_all add: values_Get_Set_other)
  have w: "f_ge (f_sub end start) (Fin 2419200) \<Longrightarrow> f_ge (f_sub end start) (Fin 604800)"
    by (cases "f_sub end start") (auto simp: f_ge_def f_eq_def)
  show ?thesis
    using assms w
    by (simp add: thanosClient_Do_def Let_def g) (simp add: values_Set_def)
qed

text \<open>
  Claim C6. Every request the adapter forwards carries the form field
  \<open>partial_response = false\<close>. For a range query (path ending in
  \<open>/api/v1/query_range\<close>) whose \<open>start\<close> and \<open>end\<close> fields parse as floats, the forwarded
  form has \<open>max_source_resolution = 1h\<close> when \<open>end - start\<close> is at least 28 days,
  \<open>5m\<close> when it is at least 7 and less than 28 days, and the field is left as it came
  (unset when the incoming form has none) when it is less than 7 days. A body that does
  not parse as a form, or a range query whose \<open>start\<close> or \<open>end\<close> does not parse, gives an
  error and nothing is forwarded. Every other request is forwarded: an instant query with
  \<open>partial_response = false\<close> added to its form, and a range query whose \<open>start\<close> and
  \<open>end\<close> parse with the form rewritten as just described. \<open>end - start\<close> is the
  rounded float64 difference.
\<close>

theorem C6_transport_adapter:
  "(thanosClient_Do pq pf enc r = Inr r' \<longrightarrow>
      (\<exists>body q0 q'. r_body r = Inr body \<and> pq body = (q0, None)
         \<and> r_body r' = Inr (enc q')
         \<and> values_Get q' ''partial_response'' = ''false''
         \<and> (strings_HasSuffix (r_path r) ''/api/v1/query_range'' \<longrightarrow>
              (\<exists>start end. pf (values_Get q0 ''start'') = (start, None)
                 \<and> pf (values_Get q0 ''end'') = (end, None)
                 \<and> (f_ge (f_sub end start) (Fin (28 * 24 * 60 * 60)) \<longrightarrow>
                       q' ''max_source_resolution'' = Some [''1h''])
                 \<and> (f_ge (f_sub end start) (Fin (7 * 24 * 60 * 60))
                      \<and> f_lt (f_sub end start) (Fin (28 * 24 * 60 * 60)) \<longrightarrow>
                       q' ''max_source_resolution'' = Some [''5m''])
                 \<and> (f_lt (f_sub end start) (Fin (7 * 24 * 60 * 60)) \<longrightarrow>
                       q' ''max_source_resolution'' = q0 ''max_source_resolution'')))))
   \<and> (r_body r = Inr body \<and> pq body = (q0, Some e) \<longrightarrow>
        thanosClient_Do pq pf enc r = Inl e)
   \<and> (r_body r = Inr body \<and> pq body = (q0, None)
        \<and> strings_HasSuffix (r_path r) ''/api/v1/query_range''
        \<and> pf (values_Get q0 ''start'') = (x, Some e) \<longrightarrow>
        thanosClient_Do pq pf enc r = Inl e)
   \<and> (r_body r = Inr body \<and> pq body = (q0, None)
        \<and> strings_HasSuffix (r_path r) ''/api/v1/query_range''
        \<and> pf (values_Get q0 ''start'') = (x, None)
        \<and> pf (values_Get q0 ''end'') = (y, Some e) \<longrightarrow>
        thanosClient_Do pq pf enc r = Inl e)
   \<and> (r_body r = Inl e \<longrightarrow> thanosClient_Do pq pf enc r = Inl e)
   \<and> (r_body r = Inr body \<and> pq body = (q0, None)
        \<and> \<not> strings_HasSuffix (r_path r) ''/api/v1/query_range'' \<longrightarrow>
        thanosClient_Do pq pf enc r =
          Inr (r\<lparr> r_body := Inr (enc (q0(''partial_response'' \<mapsto> [''false'']))),
                 r_contentLength := r_contentLength r + 23 \<rparr>))
   \<and> (r_body r = Inr body \<and> pq body = (q0, None)
        \<and> strings_HasSuffix (r_path r) ''/api/v1/query_range''
        \<and> pf (values_Get q0 ''start'') = (t0, None)
        \<and> pf (values_Get q0 ''end'') = (t1, None) \<longrightarrow>
        thanosClient_Do pq pf enc r =
          Inr (r\<lparr> r_body := Inr (enc
                   (if f_ge (f_sub t1 t0) (Fin (28 * 24 * 60 * 60))
                    then (q0(''partial_response'' \<mapsto> [''false'']))
                           (''max_source_resolution'' \<mapsto> [''1h''])
                    else if f_ge (f_sub t1 t0) (Fin (7 * 24 * 60 * 60))
                    then (q0(''partial_response'' \<mapsto> [''false'']))
                           (''max_source_resolution'' \<mapsto> [''5m''])
                    else q0(''partial_response'' \<mapsto> [''false'']))),
                 r_contentLength :=
                   (if f_ge (f_sub t1 t0) (Fin (7 * 24 * 60 * 60))
                    then r_contentLength r + 48 else r_contentLength r + 23) \<rparr>))"
proof (intro conjI impI)
  assume fw: "thanosClient_Do pq pf enc r = Inr r'"
  then obtain body q0 where b: "r_body r = Inr body" "pq body = (q0, None)"
    by (auto simp: thanosClient_Do_def split: sum.splits prod.splits option.splits)
  show "\<exists>body q0 q'. r_body r = Inr body \<and> pq body = (q0, None)
         \<and> r_body r' = Inr (enc q')
         \<and> values_Get q' ''partial_response'' = ''false''
         \<and> (strings_HasSuffix (r_path r) ''/api/v1/query_range'' \<longrightarrow>
              (\<exists>start end. pf (values_Get q0 ''start'') = (start, None)
                 \<and> pf (values_Get q0 ''end'') = (end, None)
                 \<and> (f_ge (f_sub end start) (Fin (28 * 24 * 60 * 60)) \<longrightarrow>
                       q' ''max_source_resolution'' = Some [''1h''])
                 \<and> (f_ge (f_sub end start) (Fin (7 * 24 * 60 * 60))
                      \<and> f_lt (f_sub end start) (Fin (28 * 24 * 60 * 60)) \<longrightarrow>
                       q' ''max_source_resolution'' = Some [''5m''])
                 \<and> (f_lt (f_sub end start) (Fin (7 * 24 * 60 * 60)) \<longrightarrow>
                       q' ''max_source_resolution'' = q0 ''max_source_resolution'')))"
  proof (cases "strings_HasSuffix (r_path r) ''/api/v1/query_range''")
    case False
    have "r_body r' = Inr (enc (q0(''partial_response'' \<mapsto> [''false''])))"
      using fw b False by (auto simp: thanosClient_Do_def Let_def values_Set_def)
    then show ?thesis
      using b False by (intro exI [of _ body] exI [of _ q0]
          exI [of _ "q0(''partial_response'' \<mapsto> [''false''])"]) (simp add: values_Get_def)
  next
    case True
    have g: "values_Get (values_Set q0 ''partial_response'' ''false'') ''start''
               = values_Get q0 ''start''"
      "values_Get (values_Set q0 ''partial_response'' ''false'') ''end'' = values_Get q0 ''end''"
      by (simp_all add: values_Get_Set_other)
    obtain t0 t1 where p: "pf (values_Get q0 ''start'') = (t0, None)"
      "pf (values_Get q0 ''end'') = (t1, None)"
      using fw b True
      by (auto simp: thanosClient_Do_def Let_def g split: prod.splits option.splits)
    let ?d = "f_sub t1 t0"
    let ?q = "if f_ge ?d (Fin 2419200)
               then (q0(''partial_response'' \<mapsto> [''false'']))(''max_source_resolution'' \<mapsto> [''1h''])
               else if f_ge ?d (Fin 604800)
               then (q0(''partial_response'' \<mapsto> [''false'']))(''max_source_resolution'' \<mapsto> [''5m''])
               else q0(''partial_response'' \<mapsto> [''false''])"
    have body': "r_body r' = Inr (enc ?q)"
      using fw b True p thanosClient_Do_range [of r body pq q0 pf t0 t1 enc] by auto
    have pr: "values_Get ?q ''partial_response'' = ''false''"
      by (simp add: values_Get_def)
    have c1: "f_ge ?d (Fin (28 * 24 * 60 * 60)) \<longrightarrow> ?q ''max_source_resolution'' = Some [''1h'']"
      by simp
    have c2: "f_ge ?d (Fin (7 * 24 * 60 * 60)) \<and> f_lt ?d (Fin (28 * 24 * 60 * 60)) \<longrightarrow>
         ?q ''max_source_resolution'' = Some [''5m'']"
      using f_lt_not_ge [of ?d "Fin 2419200"] by simp
    have w: "f_ge ?d (Fin 2419200) \<Longrightarrow> f_ge ?d (Fin 604800)"
      by (cases ?d) (auto simp: f_ge_def f_eq_def)
    have c3: "f_lt ?d (Fin (7 * 24 * 60 * 60)) \<longrightarrow>
         ?q ''max_source_resolution'' = q0 ''max_source_resolution''"
      using f_lt_not_ge [of ?d "Fin 604800"] w by auto
    show ?thesis
      using b True p body' pr c1 c2 c3
      by (intro exI [of _ body] exI [of _ q0] exI [of _ ?q] conjI impI
          exI [of _ t0] exI [of _ t1]) blast+
  qed
next
  assume "r_body r = Inr body \<and> pq body = (q0, Some e)"
  then show "thanosClient_Do pq pf enc r = Inl e"
    by (simp add: thanosClient_Do_def)
next
  assume "r_body r = Inr body \<and> pq body = (q0, None)
        \<and> strings_HasSuffix (r_path r) ''/api/v1/query_range''
        \<and> pf (values_Get q0 ''start'') = (x, Some e)"
  then show "thanosClient_Do pq pf enc r = Inl e"
    by (simp add: thanosClient_Do_def Let_def values_Get_Set_other)
next
  assume "r_body r = Inr body \<and> pq body = (q0, None)
        \<and> strings_HasSuffix (r_path r) ''/api/v1/query_range''
        \<and> pf (values_Get q0 ''start'') = (x, None)
        \<and> pf (values_Get q0 ''end'') = (y, Some e)"
  then show "thanosClient_Do pq pf enc r = Inl e"
    by (simp add: thanosClient_Do_def Let_def values_Get_Set_other)
next
  assume "r_body r = Inl e"
  then show "thanosClient_Do pq pf enc r = Inl e"
    by (simp add: thanosClient_Do_def)
next
  assume "r_body r = Inr body \<and> pq body = (q0, None)
        \<and> \<not> strings_HasSuffix (r_path r) ''/api/v1/query_range''"
  then show "thanosClient_Do pq pf enc r =
          Inr (r\<lparr> r_body := Inr (enc (q0(''partial_response'' \<mapsto> [''false'']))),
                 r_contentLength := r_contentLength r + 23 \<rparr>)"
    by (simp add: thanosClient_Do_def Let_def values_Set_def)
next
  assume "r_body r = Inr body \<and> pq body = (q0, None)
        \<and> strings_HasSuffix (r_path r) ''/api/v1/query_range''
        \<and> pf (values_Get q0 ''start'') = (t0, None)
        \<and> pf (values_Get q0 ''end'') = (t1, None)"
  then show "thanosClient_Do pq pf enc r =
          Inr (r\<lparr> r_body := Inr (enc
                   (if f_ge (f_sub t1 t0) (Fin (28 * 24 * 60 * 60))
                    then (q0(''partial_response'' \<mapsto> [''false'']))
                           (''max_source_resolution'' \<mapsto> [''1h''])
                    else if f_ge (f_sub t1 t0) (Fin (7 * 24 * 60 * 60))
                    then (q0(''partial_response'' \<mapsto> [''false'']))
                           (''max_source_resolution'' \<mapsto> [''5m''])
                    else q0(''partial_response'' \<mapsto> [''false'']))),
                 r_contentLength :=
                   (if f_ge (f_sub t1 t0) (Fin (7 * 24 * 60 * 60))
                    then r_contentLength r + 48 else r_contentLength r + 23) \<rparr>)"
    using thanosClient_Do_range [of r body pq q0 pf t0 t1 enc] by simp
qed

theorem C6_transport_adapter_witness:
  "thanosClient_Do
      (\<lambda>b. ([''start'' \<mapsto> [''0.3''], ''end'' \<mapsto> [''2419200.3'']], None))
      (\<lambda>s. if s = ''0.3'' then (round64 (3 / 10), None) else (round64 (24192003 / 10), None))
      (\<lambda>q. values_Get q ''partial_response'' @ '','' @ values_Get q ''max_source_resolution'')
      \<lparr> r_path = ''/api/v1/query_range'', r_body = Inr ''start=0.3&end=2419200.3'',
        r_contentLength = 23 \<rparr>
    = Inr \<lparr> r_path = ''/api/v1/query_range'', r_body = Inr ''false,1h'',
        r_contentLength = 71 \<rparr>
   \<and> thanosClient_Do
      (\<lambda>b. ([''query'' \<mapsto> [''up'']], None))
      (\<lambda>s. (Fin 0, Some (Error ''invalid syntax'')))
      (\<lambda>q. values_Get q ''partial_response'' @ '','' @ values_Get q ''max_source_resolution'')
      \<lparr> r_path = ''/api/v1/query'', r_body = Inr ''query=up'', r_contentLength = 8 \<rparr>
    = Inr \<lparr> r_path = ''/api/v1/query'', r_body = Inr ''false,'', r_contentLength = 31 \<rparr>
   \<and> thanosClient_Do
      (\<lambda>b. ([''start'' \<mapsto> [''abc''], ''end'' \<mapsto> [''2419200'']], None))
      (\<lambda>s. if s = ''abc'' then (Fin 0, Some (Error ''invalid syntax''))
           else (Fin 2419200, None))
      (\<lambda>q. values_Get q ''partial_response'' @ '','' @ values_Get q ''max_source_resolution'')
      \<lparr> r_path = ''/api/v1/query_range'', r_body = Inr ''start=abc&end=2419200'',
        r_contentLength = 21 \<rparr>
    = Inl (Error ''invalid syntax'')"
proof -
  have d: "f_sub (round64 (24192003 / 10)) (round64 (3 / 10)) = Fin 2419200"
    by (simp add: round64_eval)
  have "thanosClient_Do
      (\<lambda>b. ([''start'' \<mapsto> [''0.3''], ''end'' \<mapsto> [''2419200.3'']], None))
      (\<lambda>s. if s = ''0.3'' then (round64 (3 / 10), None) else (round64 (24192003 / 10), None))
      (\<lambda>q. values_Get q ''partial_response'' @ '','' @ values_Get q ''max_source_resolution'')
      \<lparr> r_path = ''/api/v1/query_range'', r_body = Inr ''start=0.3&end=2419200.3'',
        r_contentLength = 23 \<rparr>
    = Inr \<lparr> r_path = ''/api/v1/query_range'', r_body = Inr ''false,1h'',
        r_contentLength = 71 \<rparr>"
    using C6_transport_adapter [where
        pq = "\<lambda>b. ([''start'' \<mapsto> [''0.3''], ''end'' \<mapsto> [''2419200.3'']], None)"
        and pf = "\<lambda>s. if s = ''0.3'' then (round64 (3 / 10), None)
                     else (round64 (24192003 / 10), None)"
        and enc = "(\<lambda>q. values_Get q ''partial_response'' @ '','' @ values_Get q ''max_source_resolution'')"
        and r = "\<lparr> r_path = ''/api/v1/query_range'',
                   r_body = Inr ''start=0.3&end=2419200.3'', r_contentLength = 23 \<rparr>"
        and body = "''start=0.3&end=2419200.3''"
        and ?q0.0 = "[''start'' \<mapsto> [''0.3''], ''end'' \<mapsto> [''2419200.3'']]"
        and ?t0.0 = "round64 (3 / 10)" and ?t1.0 = "round64 (24192003 / 10)"]
    by (simp add: strings_HasSuffix_def values_Get_def d f_ge_def f_eq_def)
  moreover have "thanosClient_Do
      (\<lambda>b. ([''query'' \<mapsto> [''up'']], None))
      (\<lambda>s. (Fin 0, Some (Error ''invalid syntax'')))
      (\<lambda>q. values_Get q ''partial_response'' @ '','' @ values_Get q ''max_source_resolution'')
      \<lparr> r_path = ''/api/v1/query'', r_body = Inr ''query=up'', r_contentLength = 8 \<rparr>
    = Inr \<lparr> r_path = ''/api/v1/query'', r_body = Inr ''false,'', r_contentLength = 31 \<rparr>"
    using C6_transport_adapter [where
        pq = "\<lambda>b. ([''query'' \<mapsto> [''up'']], None)"
        and pf = "\<lambda>s. (Fin 0, Some (Error ''invalid syntax''))"
        and enc = "(\<lambda>q. values_Get q ''partial_response'' @ '','' @ values_Get q ''max_source_resolution'')"
        and r = "\<lparr> r_path = ''/api/v1/query'', r_body = Inr ''query=up'',
                   r_contentLength = 8 \<rparr>"
        and body = "''query=up''"
        and ?q0.0 = "[''query'' \<mapsto> [''up'']]"]
    by (simp add: strings_HasSuffix_def values_Get_def)
  moreover have "thanosClient_Do
      (\<lambda>b. ([''start'' \<mapsto> [''abc''], ''end'' \<mapsto> [''2419200'']], None))
      (\<lambda>s. if s = ''abc'' then (Fin 0, Some (Error ''invalid syntax''))
           else (Fin 2419200, None))
      (\<lambda>q. values_Get q ''partial_response'' @ '','' @ values_Get q ''max_source_resolution'')
      \<lparr> r_path = ''/api/v1/query_range'', r_body = Inr ''start=abc&end=2419200'',
        r_contentLength = 21 \<rparr>
    = Inl (Error ''invalid syntax'')"
    using C6_transport_adapter [where
        pq = "\<lambda>b. ([''start'' \<mapsto> [''abc''], ''end'' \<mapsto> [''2419200'']], None)"
        and pf = "\<lambda>s. if s = ''abc'' then (Fin 0, Some (Error ''invalid syntax''))
             else (Fin 2419200, None)"
        and enc = "(\<lambda>q. values_Get q ''partial_response'' @ '','' @ values_Get q ''max_source_resolution'')"
        and r = "\<lparr> r_path = ''/api/v1/query_range'',
                   r_body = Inr ''start=abc&end=2419200'', r_contentLength = 21 \<rparr>"
        and body = "''start=abc&end=2419200''"
        and ?q0.0 = "[''start'' \<mapsto> [''abc''], ''end'' \<mapsto> [''2419200'']]"
        and e = "Error ''invalid syntax''" and x = "Fin 0"]
    by (simp add: strings_HasSuffix_def values_Get_def)
  ultimately show ?thesis
    by (intro conjI)
qed

section \<open>Properties of the burn-rate evaluator\<close>

lemma burnrateCurrent_cases:
  "burnrateCurrent res b =
     (case oneSeries res of None \<Rightarrow> b | Some s \<Rightarrow> b\<lparr> br_current := s_value s \<rparr>)"
  by (auto simp: burnrateCurrent_def oneSeries_def
      split: prod.splits option.splits model_value.splits list.splits)

lemma alertstateOf_cases:
  "alertstateOf res ''inactive'' =
     (case oneSeries res of
        None \<Rightarrow> ''inactive''
      | Some s \<Rightarrow>
          if s_value s = Fin 1 \<and> s_metric s ''alertstate'' = Some ''firing''
          then ''firing''
          else if s_value s = Fin 1 \<and> s_metric s ''alertstate'' = Some ''pending''
          then ''pending''
          else ''inactive'')"
  by (auto simp: alertstateOf_def oneSeries_def Let_def f_ne_def f_eq_def
      alertstatePending_def alertstateFiring_def
      split: prod.splits option.splits model_value.splits list.splits)

text \<open>
  Claim C4. For each alert rule the result is assembled from all three branch
  evaluations. A branch whose query failed or did not return exactly one series leaves its
  own value at the default (\<open>current = -1\<close>, state \<open>inactive\<close>) and has no effect on the
  other two values or on the success of the call. The windows are reported in
  milliseconds. The state is \<open>pending\<close> or \<open>firing\<close> only when the \<open>ALERTS\<close> query
  returns exactly one series with value 1 whose \<open>alertstate\<close> label is \<open>pending\<close> or
  \<open>firing\<close>; any other shape leaves it \<open>inactive\<close>.
\<close>

theorem C4_burnrate_rule:
  fixes api :: "branch \<Rightarrow> string \<Rightarrow> query_result" and dS :: "duration \<Rightarrow> string"
    and name :: string and ba :: baseAlert and bas :: "baseAlert list"
  defines "a \<equiv> evalRule api dS name ba"
    and "rs \<equiv> oneSeries (api ShortBranch (ba_queryShort ba))"
    and "rl \<equiv> oneSeries (api LongBranch (ba_queryLong ba))"
    and "rst \<equiv> oneSeries (api StateBranch
           (alertsQuery dS name (duration_Milliseconds (ba_short ba))
              (duration_Milliseconds (ba_long ba))))"
  shows "br_window (a_short a) = ba_short ba sdiv 1000000
    \<and> br_window (a_long a) = ba_long ba sdiv 1000000
    \<and> br_current (a_short a) = (case rs of None \<Rightarrow> Fin (- 1) | Some s \<Rightarrow> s_value s)
    \<and> br_current (a_long a) = (case rl of None \<Rightarrow> Fin (- 1) | Some s \<Rightarrow> s_value s)
    \<and> a_state a =
         (case rst of
            None \<Rightarrow> ''inactive''
          | Some s \<Rightarrow>
              if s_value s = Fin 1 \<and> s_metric s ''alertstate'' = Some ''firing''
              then ''firing''
              else if s_value s = Fin 1 \<and> s_metric s ''alertstate'' = Some ''pending''
              then ''pending''
              else ''inactive'')
    \<and> GetMultiBurnrateAlerts_rules api dS name bas
         = (\<lparr> resp_code = 200, resp_body = map (evalRule api dS name) bas \<rparr>, None)"
proof -
  have w: "br_window (a_short a) = ba_short ba sdiv 1000000"
    "br_window (a_long a) = ba_long ba sdiv 1000000"
    by (simp_all add: a_def evalRule_def Let_def burnrateCurrent_cases
        duration_Milliseconds_def split: option.splits)
  have c: "br_current (a_short a) = (case rs of None \<Rightarrow> Fin (- 1) | Some s \<Rightarrow> s_value s)"
    "br_current (a_long a) = (case rl of None \<Rightarrow> Fin (- 1) | Some s \<Rightarrow> s_value s)"
    by (simp_all add: a_def rs_def rl_def evalRule_def Let_def burnrateCurrent_cases
        split: option.splits)
  have "a_state a =
      alertstateOf (api StateBranch (alertsQuery dS name (duration_Milliseconds (ba_short ba))
              (duration_Milliseconds (ba_long ba)))) ''inactive''"
    by (simp add: a_def evalRule_def Let_def alertstateInactive_def)
  then have s: "a_state a =
         (case rst of
            None \<Rightarrow> ''inactive''
          | Some s \<Rightarrow>
              if s_value s = Fin 1 \<and> s_metric s ''alertstate'' = Some ''firing''
              then ''firing''
              else if s_value s = Fin 1 \<and> s_metric s ''alertstate'' = Some ''pending''
              then ''pending''
              else ''inactive'')"
    by (simp only: alertstateOf_cases rst_def)
  have g: "GetMultiBurnrateAlerts_rules api dS name bas
         = (\<lparr> resp_code = 200, resp_body = map (evalRule api dS name) bas \<rparr>, None)"
    by (simp add: GetMultiBurnrateAlerts_rules_def)
  show ?thesis
    using w c s g by (intro conjI)
qed

theorem C4_burnrate_rule_witness:
  "br_current (a_short (evalRule
      (\<lambda>b q. case b of
          ShortBranch \<Rightarrow> (ValNil, [], Some (Error ''timeout''))
        | LongBranch \<Rightarrow>
            (ValVector [\<lparr> s_metric = Map.empty, s_value = Fin 2.5, s_timestamp = 0 \<rparr>], [], None)
        | StateBranch \<Rightarrow>
            (ValVector [\<lparr> s_metric = [''alertstate'' \<mapsto> ''firing''], s_value = Fin 1,
                          s_timestamp = 0 \<rparr>], [], None))
      (\<lambda>d. ''d'') ''slo''
      \<lparr> ba_severity = ''critical'', ba_short = 5 * Minute, ba_long = Hour,
          ba_for = 2 * Minute, ba_factor = Fin 14.4, ba_queryShort = ''short'',
          ba_queryLong = ''long'' \<rparr>)) = Fin (- 1)
   \<and> br_current (a_long (evalRule
      (\<lambda>b q. case b of
          ShortBranch \<Rightarrow> (ValNil, [], Some (Error ''timeout''))
        | LongBranch \<Rightarrow>
            (ValVector [\<lparr> s_metric = Map.empty, s_value = Fin 2.5, s_timestamp = 0 \<rparr>], [], None)
        | StateBranch \<Rightarrow>
            (ValVector [\<lparr> s_metric = [''alertstate'' \<mapsto> ''firing''], s_value = Fin 1,
                          s_timestamp = 0 \<rparr>], [], None))
      (\<lambda>d. ''d'') ''slo''
      \<lparr> ba_severity = ''critical'', ba_short = 5 * Minute, ba_long = Hour,
          ba_for = 2 * Minute, ba_factor = Fin 14.4, ba_queryShort = ''short'',
          ba_queryLong = ''long'' \<rparr>)) = Fin 2.5
   \<and> a_state (evalRule
      (\<lambda>b q. case b of
          ShortBranch \<Rightarrow> (ValNil, [], Some (Error ''timeout''))
        | LongBranch \<Rightarrow>
            (ValVector [\<lparr> s_metric = Map.empty, s_value = Fin 2.5, s_timestamp = 0 \<rparr>], [], None)
        | StateBranch \<Rightarrow>
            (ValVector [\<lparr> s_metric = [''alertstate'' \<mapsto> ''firing''], s_value = Fin 1,
                          s_timestamp = 0 \<rparr>], [], None))
      (\<lambda>d. ''d'') ''slo''
      \<lparr> ba_severity = ''critical'', ba_short = 5 * Minute, ba_long = Hour,
          ba_for = 2 * Minute, ba_factor = Fin 14.4, ba_queryShort = ''short'',
          ba_queryLong = ''long'' \<rparr>) = ''firing''
   \<and> br_window (a_short (evalRule
      (\<lambda>b q. case b of
          ShortBranch \<Rightarrow> (ValNil, [], Some (Error ''timeout''))
        | LongBranch \<Rightarrow>
            (ValVector [\<lparr> s_metric = Map.empty, s_value = Fin 2.5, s_timestamp = 0 \<rparr>], [], None)
        | StateBranch \<Rightarrow>
            (ValVector [\<lparr> s_metric = [''alertstate'' \<mapsto> ''firing''], s_value = Fin 1,
                          s_timestamp = 0 \<rparr>], [], None))
      (\<lambda>d. ''d'') ''slo''
      \<lparr> ba_severity = ''critical'', ba_short = 5 * Minute, ba_long = Hour,
          ba_for = 2 * Minute, ba_factor = Fin 14.4, ba_queryShort = ''short'',
          ba_queryLong = ''long'' \<rparr>)) = 300000
   \<and> br_window (a_long (evalRule
      (\<lambda>b q. case b of
          ShortBranch \<Rightarrow> (ValNil, [], Some (Error ''timeout''))
        | LongBranch \<Rightarrow>
            (ValVector [\<lparr> s_metric = Map.empty, s_value = Fin 2.5, s_timestamp = 0 \<rparr>], [], None)
        | StateBranch \<Rightarrow>
            (ValVector [\<lparr> s_metric = [''alertstate'' \<mapsto> ''firing''], s_value = Fin 1,
                          s_timestamp = 0 \<rparr>], [], None))
      (\<lambda>d. ''d'') ''slo''
      \<lparr> ba_severity = ''critical'', ba_short = 5 * Minute, ba_long = Hour,
          ba_for = 2 * Minute, ba_factor = Fin 14.4, ba_queryShort = ''short'',
          ba_queryLong = ''long'' \<rparr>)) = 3600000"
proof -
  have m: "(5 * Minute) sdiv 1000000 = 300000" "Hour sdiv 1000000 = 3600000"
    by (simp_all add: Hour_def Minute_def Second_def signed_divide_int_def)
  show ?thesis
    using C4_burnrate_rule [of "(\<lambda>b q. case b of
          ShortBranch \<Rightarrow> (ValNil, [], Some (Error ''timeout''))
        | LongBranch \<Rightarrow>
            (ValVector [\<lparr> s_metric = Map.empty, s_value = Fin 2.5, s_timestamp = 0 \<rparr>], [], None)
        | StateBranch \<Rightarrow>
            (ValVector [\<lparr> s_metric = [''alertstate'' \<mapsto> ''firing''], s_value = Fin 1,
                          s_timestamp = 0 \<rparr>], [], None))"
        "\<lambda>d. ''d''" "''slo''"
        "\<lparr> ba_severity = ''critical'', ba_short = 5 * Minute, ba_long = Hour,
          ba_for = 2 * Minute, ba_factor = Fin 14.4, ba_queryShort = ''short'',
          ba_queryLong = ''long'' \<rparr>" "[]"]
    by (simp add: oneSeries_def m)
qed

section \<open>Properties of the grouping merge\<close>

lemma errorBudget_merge_latency_only:
  assumes "grouping \<noteq> []" "parse grouping = (ms, None)"
    and "ind_ratio (o_indicator obj) = None" "ind_latency (o_indicator obj) = Some l"
  shows "GetObjectiveErrorBudget_mergeGrouping parse obj grouping = Panicked NilDereference"
  using assms
  by (simp add: GetObjectiveErrorBudget_mergeGrouping_def errorBudget_mergeRatio_def
      errorBudget_mergeLatency_def)

lemma errorBudget_merge_both:
  assumes "grouping \<noteq> []" "parse grouping = (ms, None)"
    and "ind_ratio (o_indicator obj) = Some r" "ind_latency (o_indicator obj) = Some l"
    and "GetObjectiveErrorBudget_mergeGrouping parse obj grouping = Done obj'"
  shows "\<exists>l'. ind_latency (o_indicator obj') = Some l' \<and> li_grouping l' = li_grouping l"
  using assms
  by (auto simp: GetObjectiveErrorBudget_mergeGrouping_def errorBudget_mergeRatio_def
      errorBudget_mergeLatency_def)

text \<open>
  Claim C5 says that for an objective whose latency indicator is populated the remaining
  grouping labels are computed from, and written back to, the latency indicator's own
  grouping list, and that the merge completes when the ratio indicator is absent. The
  latency branch reads and writes \<open>Ratio.Grouping\<close> instead: with a latency-only
  objective the merge panics on the nil ratio pointer.
\<close>

theorem C5_latency_only_panics:
  "GetObjectiveErrorBudget_mergeGrouping
     (\<lambda>g. ([\<lparr> m_type = MatchEqual, m_name = ''job'', m_value = ''api'' \<rparr>], None))
     \<lparr> o_target = Fin 0.99, o_window = 720 * Hour,
       o_indicator = \<lparr> ind_ratio = None,
         ind_latency = Some \<lparr> li_success = \<lparr> mq_name = ''bucket'', mq_labelMatchers = [] \<rparr>,
           li_total = \<lparr> mq_name = ''count'', mq_labelMatchers = [] \<rparr>,
           li_grouping = [''job'', ''handler''] \<rparr> \<rparr> \<rparr>
     ''{job=api}''
   = Panicked NilDereference"
  by (simp add: GetObjectiveErrorBudget_mergeGrouping_def errorBudget_mergeRatio_def
      errorBudget_mergeLatency_def)

section \<open>Properties of the status aggregator\<close>

lemma map_of_statuses_set: "map_of (statuses_set k v st) = (map_of st)(k \<mapsto> v)"
  by (induction st) (auto simp: fun_eq_iff)

lemma keys_statuses_set:
  "fst ` set (statuses_set k v st) = insert k (fst ` set st)"
  by (simp add: dom_map_of_conv_image_fst [symmetric] map_of_statuses_set)

lemma distinct_statuses_set:
  "distinct (map fst st) \<Longrightarrow> distinct (map fst (statuses_set k v st))"
proof (induction st)
  case Nil
  then show ?case by simp
next
  case (Cons p st)
  have "fst p \<noteq> k \<Longrightarrow> fst p \<notin> fst ` set (statuses_set k v st)"
    using Cons.prems by (simp add: keys_statuses_set)
  then show ?case
    using Cons by (cases p) auto
qed

lemma distinct_totalsLoop:
  "distinct (map fst st) \<Longrightarrow> distinct (map fst (totalsLoop fp st vs))"
  by (induction vs arbitrary: st) (auto simp: distinct_statuses_set)

lemma map_of_totalsLoop:
  "distinct (map (\<lambda>v. fp (s_metric v)) vs) \<Longrightarrow>
   map_of (totalsLoop fp st vs) k =
     (case find (\<lambda>v. fp (s_metric v) = k) vs of
        None \<Rightarrow> map_of st k
      | Some v \<Rightarrow> Some (newStatus v))"
proof (induction vs arbitrary: st)
  case Nil
  then show ?case by simp
next
  case (Cons v vs)
  have nf: "find (\<lambda>v. fp (s_metric v) = k) vs = None" if "fp (s_metric v) = k"
  proof -
    have "fp (s_metric v) \<notin> (\<lambda>v. fp (s_metric v)) ` set vs"
      using Cons.prems by simp
    then have "\<forall>x \<in> set vs. fp (s_metric x) \<noteq> k"
      using that by blast
    then show ?thesis
      by (simp add: find_None_iff)
  qed
  show ?case
    using Cons.prems nf by (auto simp: Cons.IH map_of_statuses_set split: option.splits)
qed

lemma errorsLoop_distinct:
  "errorsLoop fp st vs = Inr st' \<Longrightarrow> distinct (map fst st) \<Longrightarrow> distinct (map fst st')"
  by (induction vs arbitrary: st) (auto simp: distinct_statuses_set split: option.splits)

lemma setErrors_total [simp]:
  "av_total (os_availability (setErrors s v)) = av_total (os_availability s)"
  by (simp add: setErrors_def Let_def)

lemma map_of_errorsLoop:
  "errorsLoop fp st vs = Inr st' \<Longrightarrow> distinct (map (\<lambda>v. fp (s_metric v)) vs) \<Longrightarrow>
   map_of st' k =
     (case map_of st k of
        None \<Rightarrow> None
      | Some s \<Rightarrow>
          Some (case find (\<lambda>v. fp (s_metric v) = k) vs of None \<Rightarrow> s | Some v \<Rightarrow> setErrors s v))"
proof (induction vs arbitrary: st)
  case Nil
  then show ?case by (auto split: option.splits)
next
  case (Cons v vs)
  obtain s where s: "map_of st (fp (s_metric v)) = Some s"
    using Cons.prems(1) by (auto split: option.splits)
  have run: "errorsLoop fp (statuses_set (fp (s_metric v)) (setErrors s v) st) vs = Inr st'"
    using Cons.prems(1) s by simp
  have nf: "find (\<lambda>v. fp (s_metric v) = k) vs = None" if "fp (s_metric v) = k"
  proof -
    have "fp (s_metric v) \<notin> (\<lambda>v. fp (s_metric v)) ` set vs"
      using Cons.prems(2) by simp
    then have "\<forall>x \<in> set vs. fp (s_metric x) \<noteq> k"
      using that by blast
    then show ?thesis
      by (simp add: find_None_iff)
  qed
  show ?case
    using Cons.IH [OF run] Cons.prems(2) s nf
    by (auto simp: map_of_statuses_set split: option.splits)
qed

lemma errorsLoop_missing:
  "\<exists>v \<in> set vs. map_of st (fp (s_metric v)) = None \<Longrightarrow>
   errorsLoop fp st vs = Inl NilDereference"
proof (induction vs arbitrary: st)
  case Nil
  then show ?case by simp
next
  case (Cons v vs)
  show ?case
  proof (cases "map_of st (fp (s_metric v))")
    case None
    then show ?thesis by simp
  next
    case (Some s)
    then obtain w where w: "w \<in> set vs" "map_of st (fp (s_metric w)) = None"
      using Cons.prems by auto
    then have "fp (s_metric w) \<noteq> fp (s_metric v)"
      using Some by auto
    then have "map_of (statuses_set (fp (s_metric v)) (setErrors s v) st) (fp (s_metric w)) = None"
      using w(2) by (simp add: map_of_statuses_set)
    then have "\<exists>w \<in> set vs.
        map_of (statuses_set (fp (s_metric v)) (setErrors s v) st) (fp (s_metric w)) = None"
      using w(1) by blast
    then show ?thesis
      using Cons.IH Some by simp
  qed
qed

lemma errorsLoop_present:
  "\<forall>v \<in> set vs. map_of st (fp (s_metric v)) \<noteq> None \<Longrightarrow> \<exists>st'. errorsLoop fp st vs = Inr st'"
proof (induction vs arbitrary: st)
  case Nil
  then show ?case by simp
next
  case (Cons v vs)
  then obtain s where s: "map_of st (fp (s_metric v)) = Some s"
    by auto
  have "\<forall>w \<in> set vs.
      map_of (statuses_set (fp (s_metric v)) (setErrors s v) st) (fp (s_metric w)) \<noteq> None"
    using Cons.prems by (auto simp: map_of_statuses_set)
  then show ?case
    using Cons.IH s by simp
qed

lemma setBudget_availability [simp]:
  "os_availability (setBudget target s) = os_availability s"
  "os_labels (setBudget target s) = os_labels s"
  by (simp_all add: setBudget_def Let_def)

lemma set_finalLoop:
  "x \<in> set (finalLoop target st) \<longleftrightarrow>
     (\<exists>k s. (k, s) \<in> set st \<and> \<not> f_eq (av_total (os_availability s)) (Fin 0)
        \<and> x = replaceNaN (setBudget target s))"
proof (induction st)
  case Nil
  then show ?case by simp
next
  case (Cons p st)
  obtain k s where p: "p = (k, s)"
    by (cases p) auto
  show ?case
  proof (cases "f_eq (av_total (os_availability s)) (Fin 0)")
    case True
    then show ?thesis
      using Cons.IH by (simp add: p Let_def) blast
  next
    case False
    then show ?thesis
      using Cons.IH by (simp add: p Let_def) blast
  qed
qed

lemma find_SomeD: "find P xs = Some x \<Longrightarrow> x \<in> set xs \<and> P x"
  by (induction xs) (auto split: if_splits)

lemma find_distinct_key:
  "distinct (map f xs) \<Longrightarrow> e \<in> set xs \<Longrightarrow> find (\<lambda>x. f x = f e) xs = Some e"
  by (induction xs) force+

lemma aggregate_run:
  assumes "GetObjectiveStatus_aggregate fp target (ValVector totals) (ValVector errs) = Inr out"
  obtains st' where "errorsLoop fp (totalsLoop fp [] totals) errs = Inr st'"
    and "out = finalLoop target st'"
  using assms by (auto simp: GetObjectiveStatus_aggregate_def Let_def split: sum.splits)

lemma aggregate_statuses:
  assumes run: "errorsLoop fp (totalsLoop fp [] totals) errs = Inr st'"
    and dt: "distinct (map (\<lambda>v. fp (s_metric v)) totals)"
    and de: "distinct (map (\<lambda>v. fp (s_metric v)) errs)"
  shows "(k, s) \<in> set st' \<longleftrightarrow>
     (\<exists>t \<in> set totals. fp (s_metric t) = k
        \<and> s = (case find (\<lambda>e. fp (s_metric e) = k) errs of
                 None \<Rightarrow> newStatus t
               | Some e \<Rightarrow> setErrors (newStatus t) e))"
proof -
  have d': "distinct (map fst st')"
    using errorsLoop_distinct [OF run] distinct_totalsLoop [of "[]" fp totals] by simp
  have m0: "map_of (totalsLoop fp [] totals) k =
      (case find (\<lambda>v. fp (s_metric v) = k) totals of None \<Rightarrow> None | Some v \<Rightarrow> Some (newStatus v))"
    using map_of_totalsLoop [OF dt, of "[]" k] by (simp split: option.splits)
  have m': "map_of st' k =
      (case find (\<lambda>v. fp (s_metric v) = k) totals of
         None \<Rightarrow> None
       | Some t \<Rightarrow> Some (case find (\<lambda>e. fp (s_metric e) = k) errs of
                          None \<Rightarrow> newStatus t
                        | Some e \<Rightarrow> setErrors (newStatus t) e))"
    using map_of_errorsLoop [OF run de, of k] by (simp add: m0 split: option.splits)
  have mem: "(k, s) \<in> set st' \<longleftrightarrow> map_of st' k = Some s"
    using d' by simp
  show ?thesis
  proof
    assume "(k, s) \<in> set st'"
    then have ms: "map_of st' k = Some s"
      using mem by simp
    then obtain t where t: "find (\<lambda>v. fp (s_metric v) = k) totals = Some t"
      using m' by (auto split: option.splits)
    then have "t \<in> set totals" "fp (s_metric t) = k"
      using find_SomeD [OF t] by simp_all
    then show "\<exists>t \<in> set totals. fp (s_metric t) = k
        \<and> s = (case find (\<lambda>e. fp (s_metric e) = k) errs of
                 None \<Rightarrow> newStatus t
               | Some e \<Rightarrow> setErrors (newStatus t) e)"
      using ms m' t by auto
  next
    assume "\<exists>t \<in> set totals. fp (s_metric t) = k
        \<and> s = (case find (\<lambda>e. fp (s_metric e) = k) errs of
                 None \<Rightarrow> newStatus t
               | Some e \<Rightarrow> setErrors (newStatus t) e)"
    then obtain t where t: "t \<in> set totals" "fp (s_metric t) = k"
      "s = (case find (\<lambda>e. fp (s_metric e) = k) errs of
                 None \<Rightarrow> newStatus t
               | Some e \<Rightarrow> setErrors (newStatus t) e)"
      by blast
    have "find (\<lambda>v. fp (s_metric v) = k) totals = Some t"
      using find_distinct_key [OF dt t(1)] t(2) by simp
    then show "(k, s) \<in> set st'"
      using mem m' t(3) by simp
  qed
qed

lemma emitted_fields:
  fixes s0 :: objectiveStatus and target :: float64
  defines "x \<equiv> replaceNaN (setBudget target s0)"
    and "bt \<equiv> f_sub (Fin 1) target"
  shows "os_labels x = os_labels s0"
    and "av_total (os_availability x) = av_total (os_availability s0)"
    and "av_errors (os_availability x) = av_errors (os_availability s0)"
    and "av_percentage (os_availability x) =
          (if math_IsNaN (av_percentage (os_availability s0)) then Fin 1
           else av_percentage (os_availability s0))"
    and "bu_total (os_budget x) = bt"
    and "bu_remaining (os_budget x) =
          (let r = f_div (f_sub bt (f_div (av_errors (os_availability s0))
                                          (av_total (os_availability s0)))) bt
           in if math_IsNaN r then Fin 1 else r)"
    and "bu_max (os_budget x) = f_mul bt (av_total (os_availability s0))"
  by (simp_all add: x_def bt_def replaceNaN_def setBudget_def Let_def)

lemma emitted_not_NaN:
  "\<not> math_IsNaN (av_percentage (os_availability (replaceNaN (setBudget target s0))))"
  "\<not> math_IsNaN (bu_remaining (os_budget (replaceNaN (setBudget target s0))))"
  by (simp_all add: emitted_fields Let_def) (simp_all add: math_IsNaN_def)

lemma status_of_fields:
  fixes t :: sample and eo :: "sample option"
  defines "s0 \<equiv> (case eo of None \<Rightarrow> newStatus t | Some e \<Rightarrow> setErrors (newStatus t) e)"
  shows "os_labels s0 = s_metric t"
    and "av_total (os_availability s0) = s_value t"
    and "av_errors (os_availability s0) = (case eo of None \<Rightarrow> Fin 0 | Some e \<Rightarrow> s_value e)"
    and "av_percentage (os_availability s0) =
          (case eo of None \<Rightarrow> Fin 1
           | Some e \<Rightarrow> f_sub (Fin 1) (f_div (s_value e) (s_value t)))"
  by (simp_all add: s0_def newStatus_def setErrors_def Let_def split: option.splits)

lemma keys_totalsLoop:
  "fst ` set (totalsLoop fp st vs) = fst ` set st \<union> (\<lambda>v. fp (s_metric v)) ` set vs"
  by (induction vs arbitrary: st) (simp_all add: keys_statuses_set)

lemma aggregate_unmatched_errors:
  assumes "e \<in> set errs" "\<forall>t \<in> set totals. fp (s_metric t) \<noteq> fp (s_metric e)"
  shows "GetObjectiveStatus_aggregate fp target (ValVector totals) (ValVector errs)
           = Inl NilDereference"
proof -
  have "fp (s_metric e) \<notin> fst ` set (totalsLoop fp [] totals)"
  proof
    assume "fp (s_metric e) \<in> fst ` set (totalsLoop fp [] totals)"
    then obtain t where "t \<in> set totals" "fp (s_metric e) = fp (s_metric t)"
      unfolding keys_totalsLoop by auto
    then show False
      using assms(2) by metis
  qed
  then have "map_of (totalsLoop fp [] totals) (fp (s_metric e)) = None"
    by (simp add: map_of_eq_None_iff)
  then have "errorsLoop fp (totalsLoop fp [] totals) errs = Inl NilDereference"
    using assms(1) errorsLoop_missing [of errs "totalsLoop fp [] totals" fp] by blast
  then show ?thesis
    by (simp add: GetObjectiveStatus_aggregate_def)
qed

lemma aggregate_member:
  assumes run: "GetObjectiveStatus_aggregate fp target (ValVector totals) (ValVector errs) = Inr out"
    and dt: "distinct (map (\<lambda>v. fp (s_metric v)) totals)"
    and de: "distinct (map (\<lambda>v. fp (s_metric v)) errs)"
  shows "s \<in> set out \<longleftrightarrow>
     (\<exists>t \<in> set totals. \<not> f_eq (s_value t) (Fin 0)
        \<and> s = replaceNaN (setBudget target
                (case find (\<lambda>e. fp (s_metric e) = fp (s_metric t)) errs of
                   None \<Rightarrow> newStatus t
                 | Some e \<Rightarrow> setErrors (newStatus t) e)))"
proof -
  obtain st' where run': "errorsLoop fp (totalsLoop fp [] totals) errs = Inr st'"
    and out: "out = finalLoop target st'"
    using aggregate_run [OF run] by blast
  note st = aggregate_statuses [OF run' dt de]
  show ?thesis
  proof
    assume "s \<in> set out"
    then obtain k s0 where ks: "(k, s0) \<in> set st'"
      "\<not> f_eq (av_total (os_availability s0)) (Fin 0)"
      "s = replaceNaN (setBudget target s0)"
      unfolding out set_finalLoop by blast
    then obtain t where t: "t \<in> set totals" "fp (s_metric t) = k"
      "s0 = (case find (\<lambda>e. fp (s_metric e) = k) errs of
                 None \<Rightarrow> newStatus t
               | Some e \<Rightarrow> setErrors (newStatus t) e)"
      using st [of k s0] by blast
    have "av_total (os_availability s0) = s_value t"
      unfolding t(3) by (rule status_of_fields)
    then show "\<exists>t \<in> set totals. \<not> f_eq (s_value t) (Fin 0)
        \<and> s = replaceNaN (setBudget target
                (case find (\<lambda>e. fp (s_metric e) = fp (s_metric t)) errs of
                   None \<Rightarrow> newStatus t
                 | Some e \<Rightarrow> setErrors (newStatus t) e))"
      using ks t by auto
  next
    assume "\<exists>t \<in> set totals. \<not> f_eq (s_value t) (Fin 0)
        \<and> s = replaceNaN (setBudget target
                (case find (\<lambda>e. fp (s_metric e) = fp (s_metric t)) errs of
                   None \<Rightarrow> newStatus t
                 | Some e \<Rightarrow> setErrors (newStatus t) e))"
    then obtain t where t: "t \<in> set totals" "\<not> f_eq (s_value t) (Fin 0)"
      "s = replaceNaN (setBudget target
                (case find (\<lambda>e. fp (s_metric e) = fp (s_metric t)) errs of
                   None \<Rightarrow> newStatus t
                 | Some e \<Rightarrow> setErrors (newStatus t) e))"
      by blast
    let ?s0 = "case find (\<lambda>e. fp (s_metric e) = fp (s_metric t)) errs of
                   None \<Rightarrow> newStatus t
                 | Some e \<Rightarrow> setErrors (newStatus t) e"
    have "(fp (s_metric t), ?s0) \<in> set st'"
      using st [of "fp (s_metric t)" ?s0] t(1) by blast
    moreover have "av_total (os_availability ?s0) = s_value t"
      by (rule status_of_fields)
    ultimately show "s \<in> set out"
      unfolding out set_finalLoop using t(2,3) by metis
  qed
qed

lemma f_div_finite: "T \<noteq> 0 \<Longrightarrow> f_div (Fin E) (Fin T) = round64 (E / T)"
  by simp

lemma f_sub_Fin_not_NaN: "y \<noteq> NaN \<Longrightarrow> f_sub (Fin b) y \<noteq> NaN"
  by (cases y) simp_all

lemma f_div_nonzero_not_NaN: "x \<noteq> NaN \<Longrightarrow> b \<noteq> 0 \<Longrightarrow> f_div x (Fin b) \<noteq> NaN"
  by (cases x) simp_all

text \<open>
  Claim C1, with the arithmetic of the code: every operation is a float64 operation and
  rounds its result. Let the totals vector and the errors vector have pairwise distinct
  fingerprints, and let the handler return. Every emitted status has a total that is not
  zero, a percentage and a remaining budget that are not NaN, \<open>Budget.Total = 1 - target\<close>
  and \<open>Budget.Max = Budget.Total * Total\<close>, and it stems from a totals sample with its
  labels and total. When the errors vector has a sample \<open>E\<close> at the fingerprint of the
  status and the total is a number \<open>T > 0\<close>, then \<open>Errors = E\<close>,
  \<open>Percentage = 1 - E / T\<close> and \<open>Budget.Remaining = (Budget.Total - E / T) / Budget.Total\<close>,
  with 1 in place of a NaN (which arises only when \<open>Budget.Total\<close> is zero or not a
  number). Every totals sample whose value is not zero is emitted. For target 0.99,
  total 10000 and errors 50 at one fingerprint the result is percentage 0.995, budget
  total 0.010000000000000009, remaining 0.5000000000000004 and max 100.00000000000009,
  each the float64 nearest to the decimal written.
\<close>

theorem C1_status_arithmetic:
  assumes run: "GetObjectiveStatus_aggregate fp target (ValVector totals) (ValVector errs) = Inr out"
    and dt: "distinct (map (\<lambda>v. fp (s_metric v)) totals)"
    and de: "distinct (map (\<lambda>v. fp (s_metric v)) errs)"
  shows "(\<forall>s \<in> set out.
            \<not> f_eq (av_total (os_availability s)) (Fin 0)
          \<and> \<not> math_IsNaN (av_percentage (os_availability s))
          \<and> \<not> math_IsNaN (bu_remaining (os_budget s))
          \<and> bu_total (os_budget s) = f_sub (Fin 1) target
          \<and> bu_max (os_budget s) = f_mul (bu_total (os_budget s)) (av_total (os_availability s))
          \<and> (\<exists>t \<in> set totals. os_labels s = s_metric t
                \<and> av_total (os_availability s) = s_value t)
          \<and> (\<forall>e \<in> set errs. \<forall>T E.
                fp (s_metric e) = fp (os_labels s) \<and> av_total (os_availability s) = Fin T
                \<and> 0 < T \<and> s_value e = Fin E \<longrightarrow>
                  av_errors (os_availability s) = Fin E
                \<and> av_percentage (os_availability s) = f_sub (Fin 1) (f_div (Fin E) (Fin T))
                \<and> bu_remaining (os_budget s) =
                    (let r = f_div (f_sub (bu_total (os_budget s)) (f_div (Fin E) (Fin T)))
                                   (bu_total (os_budget s))
                     in if math_IsNaN r then Fin 1 else r)
                \<and> (\<forall>b. bu_total (os_budget s) = Fin b \<and> b \<noteq> 0 \<longrightarrow>
                      bu_remaining (os_budget s) =
                        f_div (f_sub (Fin b) (f_div (Fin E) (Fin T))) (Fin b))))
       \<and> (\<forall>t \<in> set totals. \<not> f_eq (s_value t) (Fin 0) \<longrightarrow>
            (\<exists>s \<in> set out. os_labels s = s_metric t
               \<and> av_total (os_availability s) = s_value t))
       \<and> GetObjectiveStatus_aggregate fp (round64 (99 / 100))
            (ValVector [\<lparr> s_metric = m, s_value = Fin 10000, s_timestamp = ts \<rparr>])
            (ValVector [\<lparr> s_metric = m, s_value = Fin 50, s_timestamp = ts \<rparr>])
          = Inr [\<lparr> os_labels = m,
                   os_availability =
                     \<lparr> av_percentage = round64 (995 / 1000), av_total = Fin 10000,
                       av_errors = Fin 50 \<rparr>,
                   os_budget =
                     \<lparr> bu_total = round64 (10000000000000009 / 10 ^ 18),
                       bu_remaining = round64 (5000000000000004 / 10 ^ 16),
                       bu_max = round64 (10000000000000009 / 10 ^ 14) \<rparr> \<rparr>]"
  (is "(\<forall>s \<in> set out. ?P s) \<and> ?B \<and> ?C")
proof -
  note mem = aggregate_member [OF run dt de]
  have P: "?P s" if "s \<in> set out" for s
  proof -
  from that obtain t where t: "t \<in> set totals" "\<not> f_eq (s_value t) (Fin 0)"
    "s = replaceNaN (setBudget target
            (case find (\<lambda>e. fp (s_metric e) = fp (s_metric t)) errs of
               None \<Rightarrow> newStatus t
             | Some e \<Rightarrow> setErrors (newStatus t) e))"
    using mem [of s] by blast
  let ?eo = "find (\<lambda>e. fp (s_metric e) = fp (s_metric t)) errs"
  let ?s0 = "case ?eo of None \<Rightarrow> newStatus t | Some e \<Rightarrow> setErrors (newStatus t) e"
  note sf = status_of_fields [of t ?eo]
  have lab: "os_labels s = s_metric t"
    unfolding t(3) by (simp only: emitted_fields sf)
  have tot: "av_total (os_availability s) = s_value t"
    unfolding t(3) by (simp only: emitted_fields sf)
  have err: "av_errors (os_availability s) = (case ?eo of None \<Rightarrow> Fin 0 | Some e \<Rightarrow> s_value e)"
    unfolding t(3) by (simp only: emitted_fields sf)
  have pct: "av_percentage (os_availability s) =
      (if math_IsNaN (av_percentage (os_availability ?s0)) then Fin 1
       else av_percentage (os_availability ?s0))"
    unfolding t(3) by (simp only: emitted_fields)
  have bt: "bu_total (os_budget s) = f_sub (Fin 1) target"
    unfolding t(3) by (simp only: emitted_fields)
  have rem: "bu_remaining (os_budget s) =
      (let r = f_div (f_sub (f_sub (Fin 1) target)
                 (f_div (av_errors (os_availability ?s0)) (s_value t))) (f_sub (Fin 1) target)
       in if math_IsNaN r then Fin 1 else r)"
    unfolding t(3) by (simp only: emitted_fields sf)
  have mx: "bu_max (os_budget s) = f_mul (f_sub (Fin 1) target) (s_value t)"
    unfolding t(3) by (simp only: emitted_fields sf)
  have a1: "\<not> f_eq (av_total (os_availability s)) (Fin 0)"
    using t(2) tot by simp
  have a2: "\<not> math_IsNaN (av_percentage (os_availability s))"
    unfolding t(3) by (rule emitted_not_NaN)
  have a3: "\<not> math_IsNaN (bu_remaining (os_budget s))"
    unfolding t(3) by (rule emitted_not_NaN)
  have a5: "bu_max (os_budget s) = f_mul (bu_total (os_budget s)) (av_total (os_availability s))"
    by (simp only: mx bt tot)
  have a6: "\<exists>t \<in> set totals. os_labels s = s_metric t \<and> av_total (os_availability s) = s_value t"
    using t(1) lab tot by blast
  have a7: "\<forall>e \<in> set errs. \<forall>T E.
          fp (s_metric e) = fp (os_labels s) \<and> av_total (os_availability s) = Fin T
          \<and> 0 < T \<and> s_value e = Fin E \<longrightarrow>
            av_errors (os_availability s) = Fin E
          \<and> av_percentage (os_availability s) = f_sub (Fin 1) (f_div (Fin E) (Fin T))
          \<and> bu_remaining (os_budget s) =
              (let r = f_div (f_sub (bu_total (os_budget s)) (f_div (Fin E) (Fin T)))
                             (bu_total (os_budget s))
               in if math_IsNaN r then Fin 1 else r)
          \<and> (\<forall>b. bu_total (os_budget s) = Fin b \<and> b \<noteq> 0 \<longrightarrow>
                bu_remaining (os_budget s) =
                  f_div (f_sub (Fin b) (f_div (Fin E) (Fin T))) (Fin b))"
  proof (intro ballI allI impI)
    fix e T E
    assume e: "e \<in> set errs"
      and h: "fp (s_metric e) = fp (os_labels s) \<and> av_total (os_availability s) = Fin T
          \<and> 0 < T \<and> s_value e = Fin E"
    have "find (\<lambda>x. fp (s_metric x) = fp (s_metric e)) errs = Some e"
      using find_distinct_key [OF de e] by simp
    then have eo: "?eo = Some e"
      using h lab by simp
    have vt: "s_value t = Fin T" "T \<noteq> 0" "s_value e = Fin E"
      using h tot by simp_all
    have q: "f_div (Fin E) (Fin T) = round64 (E / T)"
      using vt(2) by (rule f_div_finite)
    have e0: "av_errors (os_availability ?s0) = Fin E"
      using sf(3) eo vt by simp
    have p0: "av_percentage (os_availability ?s0) = f_sub (Fin 1) (f_div (Fin E) (Fin T))"
      using sf(4) eo vt by simp
    have pn: "\<not> math_IsNaN (f_sub (Fin 1) (f_div (Fin E) (Fin T)))"
      unfolding q math_IsNaN_def by (rule f_sub_Fin_not_NaN) simp
    have c1: "av_errors (os_availability s) = Fin E"
      using err eo vt by simp
    have c2: "av_percentage (os_availability s) = f_sub (Fin 1) (f_div (Fin E) (Fin T))"
      using pct pn by (simp only: p0 if_False)
    have c3: "bu_remaining (os_budget s) =
        (let r = f_div (f_sub (bu_total (os_budget s)) (f_div (Fin E) (Fin T)))
                       (bu_total (os_budget s))
         in if math_IsNaN r then Fin 1 else r)"
      using rem by (simp only: e0 vt(1) bt)
    have c4: "bu_remaining (os_budget s) = f_div (f_sub (Fin b) (f_div (Fin E) (Fin T))) (Fin b)"
      if "bu_total (os_budget s) = Fin b \<and> b \<noteq> 0" for b
    proof -
      have "f_sub (Fin b) (f_div (Fin E) (Fin T)) \<noteq> NaN"
        unfolding q by (rule f_sub_Fin_not_NaN) simp
      then have "f_div (f_sub (Fin b) (f_div (Fin E) (Fin T))) (Fin b) \<noteq> NaN"
        using that by (intro f_div_nonzero_not_NaN) simp_all
      then show ?thesis
        using c3 that by (simp add: Let_def math_IsNaN_def)
    qed
    show "av_errors (os_availability s) = Fin E
        \<and> av_percentage (os_availability s) = f_sub (Fin 1) (f_div (Fin E) (Fin T))
        \<and> bu_remaining (os_budget s) =
            (let r = f_div (f_sub (bu_total (os_budget s)) (f_div (Fin E) (Fin T)))
                           (bu_total (os_budget s))
             in if math_IsNaN r then Fin 1 else r)
        \<and> (\<forall>b. bu_total (os_budget s) = Fin b \<and> b \<noteq> 0 \<longrightarrow>
              bu_remaining (os_budget s) =
                f_div (f_sub (Fin b) (f_div (Fin E) (Fin T))) (Fin b))"
      using c1 c2 c3 c4 by blast
  qed
  show ?thesis
    using a1 a2 a3 bt a5 a6 a7 by (intro conjI)
  qed
  have B: ?B
  proof (intro ballI impI)
    fix t assume t: "t \<in> set totals" "\<not> f_eq (s_value t) (Fin 0)"
    let ?eo = "find (\<lambda>e. fp (s_metric e) = fp (s_metric t)) errs"
    let ?s = "replaceNaN (setBudget target
            (case ?eo of None \<Rightarrow> newStatus t | Some e \<Rightarrow> setErrors (newStatus t) e))"
    note sf = status_of_fields [of t ?eo]
    have "?s \<in> set out"
      using mem [of ?s] t by blast
    moreover have "os_labels ?s = s_metric t" "av_total (os_availability ?s) = s_value t"
      by (simp_all only: emitted_fields sf)
    ultimately show "\<exists>s \<in> set out. os_labels s = s_metric t
               \<and> av_total (os_availability s) = s_value t"
      by blast
  qed
  have C: ?C
    by (simp add: GetObjectiveStatus_aggregate_def newStatus_def setErrors_def setBudget_def
        replaceNaN_def math_IsNaN_def f_eq_def round64_eval)
  show ?thesis
    using P B C by blast
qed

lemma aggregate_example:
  "GetObjectiveStatus_aggregate (\<lambda>m. if m ''job'' = Some ''a'' then 1 else 2) (round64 (99 / 100))
      (ValVector [\<lparr> s_metric = [''job'' \<mapsto> ''a''], s_value = Fin 10000, s_timestamp = 0 \<rparr>, \<lparr> s_metric = [''job'' \<mapsto> ''b''], s_value = Fin 0, s_timestamp = 0 \<rparr>])
      (ValVector [\<lparr> s_metric = [''job'' \<mapsto> ''a''], s_value = Fin 50, s_timestamp = 0 \<rparr>])
    = Inr [\<lparr> os_labels = [''job'' \<mapsto> ''a''],
           os_availability =
             \<lparr> av_percentage = Fin (8962163258467287 / 9007199254740992),
               av_total = Fin 10000, av_errors = Fin 50 \<rparr>,
           os_budget =
             \<lparr> bu_total = Fin (45035996273705 / 4503599627370496),
               bu_remaining = Fin (1125899906842625 / 2251799813685248),
               bu_max = Fin (3518437208883203 / 35184372088832) \<rparr> \<rparr>]"
  by (simp add: GetObjectiveStatus_aggregate_def newStatus_def setErrors_def setBudget_def
      replaceNaN_def math_IsNaN_def f_eq_def round64_eval)

theorem C1_status_arithmetic_witness:
  "GetObjectiveStatus_aggregate (\<lambda>m. if m ''job'' = Some ''a'' then 1 else 2) (round64 (99 / 100))
      (ValVector [\<lparr> s_metric = [''job'' \<mapsto> ''a''], s_value = Fin 10000, s_timestamp = 0 \<rparr>, \<lparr> s_metric = [''job'' \<mapsto> ''b''], s_value = Fin 0, s_timestamp = 0 \<rparr>])
      (ValVector [\<lparr> s_metric = [''job'' \<mapsto> ''a''], s_value = Fin 50, s_timestamp = 0 \<rparr>])
    = Inr [\<lparr> os_labels = [''job'' \<mapsto> ''a''],
           os_availability =
             \<lparr> av_percentage = Fin (8962163258467287 / 9007199254740992),
               av_total = Fin 10000, av_errors = Fin 50 \<rparr>,
           os_budget =
             \<lparr> bu_total = Fin (45035996273705 / 4503599627370496),
               bu_remaining = Fin (1125899906842625 / 2251799813685248),
               bu_max = Fin (3518437208883203 / 35184372088832) \<rparr> \<rparr>]
   \<and> \<not> f_eq (av_total (os_availability (\<lparr> os_labels = [''job'' \<mapsto> ''a''],
           os_availability =
             \<lparr> av_percentage = Fin (8962163258467287 / 9007199254740992),
               av_total = Fin 10000, av_errors = Fin 50 \<rparr>,
           os_budget =
             \<lparr> bu_total = Fin (45035996273705 / 4503599627370496),
               bu_remaining = Fin (1125899906842625 / 2251799813685248),
               bu_max = Fin (3518437208883203 / 35184372088832) \<rparr> \<rparr>))) (Fin 0)
   \<and> \<not> math_IsNaN (av_percentage (os_availability (\<lparr> os_labels = [''job'' \<mapsto> ''a''],
           os_availability =
             \<lparr> av_percentage = Fin (8962163258467287 / 9007199254740992),
               av_total = Fin 10000, av_errors = Fin 50 \<rparr>,
           os_budget =
             \<lparr> bu_total = Fin (45035996273705 / 4503599627370496),
               bu_remaining = Fin (1125899906842625 / 2251799813685248),
               bu_max = Fin (3518437208883203 / 35184372088832) \<rparr> \<rparr>)))
   \<and> \<not> math_IsNaN (bu_remaining (os_budget (\<lparr> os_labels = [''job'' \<mapsto> ''a''],
           os_availability =
             \<lparr> av_percentage = Fin (8962163258467287 / 9007199254740992),
               av_total = Fin 10000, av_errors = Fin 50 \<rparr>,
           os_budget =
             \<lparr> bu_total = Fin (45035996273705 / 4503599627370496),
               bu_remaining = Fin (1125899906842625 / 2251799813685248),
               bu_max = Fin (3518437208883203 / 35184372088832) \<rparr> \<rparr>)))
   \<and> av_percentage (os_availability (\<lparr> os_labels = [''job'' \<mapsto> ''a''],
           os_availability =
             \<lparr> av_percentage = Fin (8962163258467287 / 9007199254740992),
               av_total = Fin 10000, av_errors = Fin 50 \<rparr>,
           os_budget =
             \<lparr> bu_total = Fin (45035996273705 / 4503599627370496),
               bu_remaining = Fin (1125899906842625 / 2251799813685248),
               bu_max = Fin (3518437208883203 / 35184372088832) \<rparr> \<rparr>)) = f_sub (Fin 1) (f_div (Fin 50) (Fin 10000))
   \<and> bu_total (os_budget (\<lparr> os_labels = [''job'' \<mapsto> ''a''],
           os_availability =
             \<lparr> av_percentage = Fin (8962163258467287 / 9007199254740992),
               av_total = Fin 10000, av_errors = Fin 50 \<rparr>,
           os_budget =
             \<lparr> bu_total = Fin (45035996273705 / 4503599627370496),
               bu_remaining = Fin (1125899906842625 / 2251799813685248),
               bu_max = Fin (3518437208883203 / 35184372088832) \<rparr> \<rparr>)) = f_sub (Fin 1) (round64 (99 / 100))
   \<and> bu_max (os_budget (\<lparr> os_labels = [''job'' \<mapsto> ''a''],
           os_availability =
             \<lparr> av_percentage = Fin (8962163258467287 / 9007199254740992),
               av_total = Fin 10000, av_errors = Fin 50 \<rparr>,
           os_budget =
             \<lparr> bu_total = Fin (45035996273705 / 4503599627370496),
               bu_remaining = Fin (1125899906842625 / 2251799813685248),
               bu_max = Fin (3518437208883203 / 35184372088832) \<rparr> \<rparr>)) = f_mul (bu_total (os_budget (\<lparr> os_labels = [''job'' \<mapsto> ''a''],
           os_availability =
             \<lparr> av_percentage = Fin (8962163258467287 / 9007199254740992),
               av_total = Fin 10000, av_errors = Fin 50 \<rparr>,
           os_budget =
             \<lparr> bu_total = Fin (45035996273705 / 4503599627370496),
               bu_remaining = Fin (1125899906842625 / 2251799813685248),
               bu_max = Fin (3518437208883203 / 35184372088832) \<rparr> \<rparr>))) (Fin 10000)"
proof -
  let ?fp = "(\<lambda>m. if m ''job'' = Some ''a'' then 1 else 2) :: labelset \<Rightarrow> fingerprint"
  let ?totals = "[\<lparr> s_metric = [''job'' \<mapsto> ''a''], s_value = Fin 10000, s_timestamp = 0 \<rparr>, \<lparr> s_metric = [''job'' \<mapsto> ''b''], s_value = Fin 0, s_timestamp = 0 \<rparr>]"
  let ?errs = "[\<lparr> s_metric = [''job'' \<mapsto> ''a''], s_value = Fin 50, s_timestamp = 0 \<rparr>]"
  let ?s = "\<lparr> os_labels = [''job'' \<mapsto> ''a''],
           os_availability =
             \<lparr> av_percentage = Fin (8962163258467287 / 9007199254740992),
               av_total = Fin 10000, av_errors = Fin 50 \<rparr>,
           os_budget =
             \<lparr> bu_total = Fin (45035996273705 / 4503599627370496),
               bu_remaining = Fin (1125899906842625 / 2251799813685248),
               bu_max = Fin (3518437208883203 / 35184372088832) \<rparr> \<rparr>"
  have run: "GetObjectiveStatus_aggregate ?fp (round64 (99 / 100)) (ValVector ?totals)
      (ValVector ?errs) = Inr [?s]"
    by (rule aggregate_example)
  have dt: "distinct (map (\<lambda>v. ?fp (s_metric v)) ?totals)"
    by simp
  have de: "distinct (map (\<lambda>v. ?fp (s_metric v)) ?errs)"
    by simp
  have mem: "?s \<in> set [?s]"
    by simp
  note P = C1_status_arithmetic [OF run dt de, THEN conjunct1, THEN bspec, OF mem]
  have a1: "\<not> f_eq (av_total (os_availability ?s)) (Fin 0)"
    by (rule P [THEN conjunct1])
  have a2: "\<not> math_IsNaN (av_percentage (os_availability ?s))"
    by (rule P [THEN conjunct2, THEN conjunct1])
  have a3: "\<not> math_IsNaN (bu_remaining (os_budget ?s))"
    by (rule P [THEN conjunct2, THEN conjunct2, THEN conjunct1])
  have e1: "f_sub (Fin 1) (f_div (Fin 50) (Fin 10000))
      = Fin (8962163258467287 / 9007199254740992)"
    by (simp add: round64_eval)
  have e2: "f_sub (Fin 1) (round64 (99 / 100)) = Fin (45035996273705 / 4503599627370496)"
    by (simp add: round64_eval)
  have e3: "f_mul (Fin (45035996273705 / 4503599627370496)) (Fin 10000)
      = Fin (3518437208883203 / 35184372088832)"
    by (simp add: round64_eval)
  have b: "av_percentage (os_availability ?s) = f_sub (Fin 1) (f_div (Fin 50) (Fin 10000))
       \<and> bu_total (os_budget ?s) = f_sub (Fin 1) (round64 (99 / 100))
       \<and> bu_max (os_budget ?s) = f_mul (bu_total (os_budget ?s)) (Fin 10000)"
    by (simp only: e1 e2 e3 objectiveStatus.simps availability.simps budget.simps)
  show ?thesis
    using run a1 a2 a3 b by (intro conjI) blast+
qed

text \<open>
  The claim as written gives the example's budget as total 0.01, remaining 0.5 and max
  100. In float64, \<open>1 - 0.99\<close> is not the float64 nearest to \<open>0.01\<close>, and the two values
  computed from it are not \<open>0.5\<close> and \<open>100\<close>.
\<close>

theorem C1_example_counterexample:
  "GetObjectiveStatus_aggregate (\<lambda>m. 7) (round64 (99 / 100))
      (ValVector [\<lparr> s_metric = Map.empty, s_value = Fin 10000, s_timestamp = 0 \<rparr>])
      (ValVector [\<lparr> s_metric = Map.empty, s_value = Fin 50, s_timestamp = 0 \<rparr>])
    = Inr [\<lparr> os_labels = Map.empty,
           os_availability =
             \<lparr> av_percentage = Fin (8962163258467287 / 9007199254740992),
               av_total = Fin 10000, av_errors = Fin 50 \<rparr>,
           os_budget =
             \<lparr> bu_total = Fin (45035996273705 / 4503599627370496),
               bu_remaining = Fin (1125899906842625 / 2251799813685248),
               bu_max = Fin (3518437208883203 / 35184372088832) \<rparr> \<rparr>]
   \<and> Fin (45035996273705 / 4503599627370496) \<noteq> round64 (1 / 100)
   \<and> Fin (45035996273705 / 4503599627370496) \<noteq> Fin (1 / 100)
   \<and> Fin (1125899906842625 / 2251799813685248) \<noteq> Fin (1 / 2)
   \<and> Fin (3518437208883203 / 35184372088832) \<noteq> Fin 100"
  by (simp add: GetObjectiveStatus_aggregate_def newStatus_def setErrors_def setBudget_def
      replaceNaN_def math_IsNaN_def f_eq_def round64_eval)

text \<open>
  Claim C2 says that a series of the errors query whose fingerprint has no entry among
  the statuses built from the totals query is dropped without a failure. The loop over
  the errors vector writes through the pointer it looked up without a nil check: here
  the errors vector has a series \<open>job = b\<close> that the totals vector lacks, and the handler
  panics.
\<close>

theorem C2_unmatched_errors_panic:
  "GetObjectiveStatus_aggregate (\<lambda>m. if m ''job'' = Some ''a'' then 1 else 2) (Fin 0.99)
      (ValVector [\<lparr> s_metric = [''job'' \<mapsto> ''a''], s_value = Fin 10000, s_timestamp = 0 \<rparr>])
      (ValVector [\<lparr> s_metric = [''job'' \<mapsto> ''a''], s_value = Fin 50, s_timestamp = 0 \<rparr>, \<lparr> s_metric = [''job'' \<mapsto> ''b''], s_value = Fin 3, s_timestamp = 0 \<rparr>])
    = Inl NilDereference"
  by (simp add: GetObjectiveStatus_aggregate_def newStatus_def setErrors_def Let_def)

section \<open>Properties of the matrix transform\<close>

lemma insertDownColumns_length [simp]: "length (insertDownColumns ps j) = length ps"
  by (induction j arbitrary: ps) auto

lemma insertDownColumns_mset:
  "j < length ps \<Longrightarrow> mset (insertDownColumns ps j) = mset ps"
proof (induction j arbitrary: ps)
  case 0
  then show ?case by simp
next
  case (Suc j)
  have "mset (ps[Suc j := ps ! j, j := ps ! Suc j]) = mset ps"
    using Suc.prems by (simp add: mset_swap)
  then show ?case
    using Suc by simp
qed

lemma insertDownColumns_sorted:
  assumes "i < length ps" "j \<le> i"
    and "\<forall>p q. p < q \<and> q \<le> i \<and> p \<noteq> j \<and> q \<noteq> j \<longrightarrow> fst (ps ! p) \<le> fst (ps ! q)"
    and "\<forall>q. j < q \<and> q \<le> i \<longrightarrow> fst (ps ! j) < fst (ps ! q)"
  shows "\<forall>p q. p < q \<and> q \<le> i \<longrightarrow>
           fst (insertDownColumns ps j ! p) \<le> fst (insertDownColumns ps j ! q)"
  using assms
proof (induction j arbitrary: ps)
  case 0
  show ?case
  proof (intro allI impI)
    fix p q assume pq: "p < q \<and> q \<le> i"
    show "fst (insertDownColumns ps 0 ! p) \<le> fst (insertDownColumns ps 0 ! q)"
    proof (cases "p = 0")
      case True
      then show ?thesis using "0.prems"(4) pq by (simp add: less_imp_le)
    next
      case False
      then show ?thesis using "0.prems"(3) pq by simp
    qed
  qed
next
  case (Suc j)
  show ?case
  proof (cases "fst (ps ! Suc j) < fst (ps ! j)")
    case True
    let ?ps = "ps[Suc j := ps ! j, j := ps ! Suc j]"
    have len: "i < length ?ps" "j \<le> i"
      using Suc.prems by simp_all
    have n: "?ps ! j = ps ! Suc j" "?ps ! Suc j = ps ! j"
      "\<And>r. r \<noteq> j \<Longrightarrow> r \<noteq> Suc j \<Longrightarrow> ?ps ! r = ps ! r"
      using Suc.prems(1,2) by simp_all
    have i1: "\<forall>p q. p < q \<and> q \<le> i \<and> p \<noteq> j \<and> q \<noteq> j \<longrightarrow> fst (?ps ! p) \<le> fst (?ps ! q)"
    proof (intro allI impI)
      fix p q assume h: "p < q \<and> q \<le> i \<and> p \<noteq> j \<and> q \<noteq> j"
      consider "q = Suc j" | "p = Suc j" | "p \<noteq> Suc j" "q \<noteq> Suc j"
        by blast
      then show "fst (?ps ! p) \<le> fst (?ps ! q)"
      proof cases
        case 1
        then have "p < j" using h by simp
        then have "fst (ps ! p) \<le> fst (ps ! j)"
          using Suc.prems(3) Suc.prems(2) by simp
        then show ?thesis using 1 n h by simp
      next
        case 2
        then have "fst (ps ! j) \<le> fst (ps ! q)"
          using Suc.prems(3) h by simp
        then show ?thesis using 2 n h by simp
      next
        case 3
        then show ?thesis using Suc.prems(3) n h by simp
      qed
    qed
    have i2: "\<forall>q. j < q \<and> q \<le> i \<longrightarrow> fst (?ps ! j) < fst (?ps ! q)"
    proof (intro allI impI)
      fix q assume h: "j < q \<and> q \<le> i"
      show "fst (?ps ! j) < fst (?ps ! q)"
      proof (cases "q = Suc j")
        case True
        then show ?thesis using n \<open>fst (ps ! Suc j) < fst (ps ! j)\<close> by simp
      next
        case False
        then show ?thesis using Suc.prems(4) n h by simp
      qed
    qed
    show ?thesis
      using Suc.IH [OF len i1 i2] True by simp
  next
    case False
    show ?thesis
    proof (intro allI impI)
      fix p q assume pq: "p < q \<and> q \<le> i"
      consider "p = Suc j" | "q = Suc j" | "p \<noteq> Suc j" "q \<noteq> Suc j"
        by blast
      then have "fst (ps ! p) \<le> fst (ps ! q)"
      proof cases
        case 1
        then show ?thesis using Suc.prems(4) pq by (simp add: less_imp_le)
      next
        case 2
        have "fst (ps ! p) \<le> fst (ps ! j)"
        proof (cases "p = j")
          case True
          then show ?thesis by simp
        next
          case False
          then show ?thesis using Suc.prems(3) Suc.prems(2) 2 pq by simp
        qed
        then show ?thesis using False 2 by simp
      next
        case 3
        then show ?thesis using Suc.prems(3) pq by simp
      qed
      then show "fst (insertDownColumns ps (Suc j) ! p) \<le> fst (insertDownColumns ps (Suc j) ! q)"
        using False by simp
    qed
  qed
qed

lemma foldl_insertDownColumns_length [simp]:
  "length (foldl insertDownColumns ps is) = length ps"
  by (induction "is" arbitrary: ps) auto

lemma foldl_insertDownColumns_mset:
  "\<forall>i \<in> set is. i < length ps \<Longrightarrow> mset (foldl insertDownColumns ps is) = mset ps"
  by (induction "is" arbitrary: ps) (auto simp: insertDownColumns_mset)

lemma sortColumns_length [simp]: "length (sortColumns ps) = length ps"
  by (simp add: sortColumns_def)

lemma sortColumns_mset: "mset (sortColumns ps) = mset ps"
  by (simp add: sortColumns_def foldl_insertDownColumns_mset)

lemma sortColumns_prefix_sorted:
  "k \<le> length ps \<Longrightarrow>
   \<forall>p q. p < q \<and> q < k \<longrightarrow>
     fst (foldl insertDownColumns ps [1..<k] ! p) \<le> fst (foldl insertDownColumns ps [1..<k] ! q)"
proof (induction k)
  case 0
  then show ?case by simp
next
  case (Suc k)
  show ?case
  proof (cases "k = 0")
    case True
    then show ?thesis by simp
  next
    case False
    let ?ps = "foldl insertDownColumns ps [1..<k]"
    have step: "foldl insertDownColumns ps [1..<Suc k] = insertDownColumns ?ps k"
      using False by simp
    have len: "k < length ?ps" "k \<le> k"
      using Suc.prems by simp_all
    have i1: "\<forall>p q. p < q \<and> q \<le> k \<and> p \<noteq> k \<and> q \<noteq> k \<longrightarrow> fst (?ps ! p) \<le> fst (?ps ! q)"
      using Suc.IH Suc.prems by simp
    have i2: "\<forall>q. k < q \<and> q \<le> k \<longrightarrow> fst (?ps ! k) < fst (?ps ! q)"
      by simp
    show ?thesis
      using insertDownColumns_sorted [OF len i1 i2] by (simp add: step less_Suc_eq_le)
  qed
qed

lemma sortColumns_sorted: "sorted (map fst (sortColumns ps))"
proof -
  have "\<forall>p q. p < q \<and> q < length ps \<longrightarrow>
     fst (sortColumns ps ! p) \<le> fst (sortColumns ps ! q)"
    using sortColumns_prefix_sorted [of "length ps" ps] by (simp add: sortColumns_def)
  then show ?thesis
    by (simp add: sorted_iff_nth_mono_less)
qed

lemma sortColumns_set: "set (sortColumns ps) = set ps"
  using sortColumns_mset [of ps] by (metis set_mset_mset)

lemma sortColumns_strict:
  assumes "distinct (map fst ps)"
  shows "sorted_wrt (<) (map fst (sortColumns ps))"
proof -
  have "mset (map fst (sortColumns ps)) = mset (map fst ps)"
    by (simp add: sortColumns_mset)
  then have "distinct (map fst (sortColumns ps))"
    using assms by (metis mset_eq_imp_distinct_iff)
  then show ?thesis
    using sortColumns_sorted [of ps] by (simp add: strict_sorted_iff)
qed

lemma toRows_Len [simp]: "values_Len (toRows series ps) = length ps"
  by (simp add: values_Len_def toRows_def)

lemma toRows_Less:
  "i < length ps \<Longrightarrow> j < length ps \<Longrightarrow>
   values_Less (toRows series ps) i j = (fst (ps ! i) < fst (ps ! j))"
  by (simp add: values_Less_def toRows_def float64_of_int_def split: prod.splits)

lemma toRows_Swap:
  "i < length ps \<Longrightarrow> j < length ps \<Longrightarrow>
   values_Swap (toRows series ps) i j = toRows series (ps[i := ps ! j, j := ps ! i])"
  by (simp add: values_Swap_def toRows_def map_update)

lemma insertDown_toRows:
  "j < length ps \<Longrightarrow>
   insertDown (toRows series ps) j = toRows series (insertDownColumns ps j)"
proof (induction j arbitrary: ps)
  case 0
  then show ?case by simp
next
  case (Suc j)
  then show ?case
    by (simp add: toRows_Less toRows_Swap)
qed

lemma foldl_insertDown_toRows:
  "\<forall>i \<in> set is. i < length ps \<Longrightarrow>
   foldl insertDown (toRows series ps) is = toRows series (foldl insertDownColumns ps is)"
  by (induction "is" arbitrary: ps) (simp_all add: insertDown_toRows)

lemma sort_Sort_toRows: "sort_Sort (toRows series ps) = toRows series (sortColumns ps)"
  by (simp add: sort_Sort_def sortColumns_def foldl_insertDown_toRows)

lemma matrixToValues_many:
  "length m > 1 \<Longrightarrow>
   matrixToValues m = toRows (length m) (sortColumns (streamsLoop (length m) 0 [] m))"
proof -
  assume "length m > 1"
  then have "matrixToValues m = sort_Sort (toRows (length m) (streamsLoop (length m) 0 [] m))"
    by (auto simp: matrixToValues_def Let_def toRows_def)
  then show ?thesis
    by (simp only: sort_Sort_toRows)
qed

lemma map_of_pairs_set: "map_of (pairs_set t fs ps) = (map_of ps)(t \<mapsto> fs)"
  by (induction ps) (auto simp: fun_eq_iff)

lemma keys_pairs_set: "fst ` set (pairs_set t fs ps) = insert t (fst ` set ps)"
  by (simp add: dom_map_of_conv_image_fst [symmetric] map_of_pairs_set)

lemma distinct_pairs_set:
  "distinct (map fst ps) \<Longrightarrow> distinct (map fst (pairs_set t fs ps))"
proof (induction ps)
  case Nil
  then show ?case by simp
next
  case (Cons p ps)
  have "fst p \<noteq> t \<Longrightarrow> fst p \<notin> fst ` set (pairs_set t fs ps)"
    using Cons.prems by (simp add: keys_pairs_set)
  then show ?case
    using Cons by (cases p) auto
qed

lemma map_of_addPair:
  "map_of (addPair series i ps pair) =
     (map_of ps)(secondOf pair \<mapsto>
        (if \<not> math_IsNaN (p_value pair) then (rowAt series ps (secondOf pair))[i := p_value pair]
         else rowAt series ps (secondOf pair)))"
  by (simp add: addPair_def Let_def map_of_pairs_set secondOf_def)

lemma keys_addPair:
  "fst ` set (addPair series i ps pair) = insert (secondOf pair) (fst ` set ps)"
  by (simp add: addPair_def Let_def keys_pairs_set secondOf_def)

lemma distinct_addPair:
  "distinct (map fst ps) \<Longrightarrow> distinct (map fst (addPair series i ps pair))"
  by (simp add: addPair_def Let_def distinct_pairs_set)

lemma rowAt_addPair:
  "rowAt series (addPair series i ps pair) t =
     (if t = secondOf pair \<and> \<not> math_IsNaN (p_value pair)
      then (rowAt series ps t)[i := p_value pair]
      else rowAt series ps t)"
  by (auto simp: rowAt_def [of series "addPair series i ps pair"] map_of_addPair)
     (simp_all add: rowAt_def)

lemma foldl_addPair_keys:
  "fst ` set (foldl (addPair series i) ps vals) = fst ` set ps \<union> secondOf ` set vals"
  by (induction vals arbitrary: ps) (simp_all add: keys_addPair)

lemma foldl_addPair_distinct:
  "distinct (map fst ps) \<Longrightarrow> distinct (map fst (foldl (addPair series i) ps vals))"
  by (induction vals arbitrary: ps) (simp_all add: distinct_addPair)

lemma foldl_addPair_length:
  "\<forall>t. length (rowAt series ps t) = series \<Longrightarrow>
   length (rowAt series (foldl (addPair series i) ps vals) t) = series"
  by (induction vals arbitrary: ps) (simp_all add: rowAt_addPair)

lemma foldl_addPair_entry:
  assumes "\<forall>t. length (rowAt series ps t) = series" "i < series"
  shows "rowAt series (foldl (addPair series i) ps vals) t ! j =
     (if j = i
      then (case filter (\<lambda>pair. secondOf pair = t \<and> \<not> math_IsNaN (p_value pair)) vals of
              [] \<Rightarrow> rowAt series ps t ! i
            | qs \<Rightarrow> p_value (last qs))
      else rowAt series ps t ! j)"
  using assms
proof (induction vals arbitrary: ps)
  case Nil
  then show ?case by simp
next
  case (Cons pair vals)
  have len: "\<forall>t. length (rowAt series (addPair series i ps pair) t) = series"
    using Cons.prems(1) by (simp add: rowAt_addPair)
  show ?case
    using Cons.IH [OF len Cons.prems(2)] Cons.prems
    by (auto simp: rowAt_addPair split: list.splits)
qed

lemma streamsLoop_keys:
  "fst ` set (streamsLoop series i ps rest) = fst ` set ps \<union> secondsOf rest"
  by (induction rest arbitrary: i ps) (auto simp: foldl_addPair_keys secondsOf_def)

lemma streamsLoop_distinct:
  "distinct (map fst ps) \<Longrightarrow> distinct (map fst (streamsLoop series i ps rest))"
  by (induction rest arbitrary: i ps) (simp_all add: foldl_addPair_distinct)

lemma streamsLoop_length:
  "\<forall>t. length (rowAt series ps t) = series \<Longrightarrow>
   length (rowAt series (streamsLoop series i ps rest) t) = series"
  by (induction rest arbitrary: i ps) (simp_all add: foldl_addPair_length)

lemma streamsLoop_entry:
  assumes "\<forall>t. length (rowAt series ps t) = series" "i + length rest \<le> series"
  shows "rowAt series (streamsLoop series i ps rest) t ! j =
     (if i \<le> j \<and> j < i + length rest
      then (case filter (\<lambda>pair. secondOf pair = t \<and> \<not> math_IsNaN (p_value pair))
                   (st_values (rest ! (j - i))) of
              [] \<Rightarrow> rowAt series ps t ! j
            | qs \<Rightarrow> p_value (last qs))
      else rowAt series ps t ! j)"
  using assms
proof (induction rest arbitrary: i ps)
  case Nil
  have "\<not> (i \<le> j \<and> j < i + length ([] :: sampleStream list))"
    by simp
  then show ?case
    by (simp only: streamsLoop.simps if_False)
next
  case (Cons stream rest)
  let ?ps = "foldl (addPair series i) ps (st_values stream)"
  have len: "\<forall>t. length (rowAt series ?ps t) = series"
    using Cons.prems(1) by (simp add: foldl_addPair_length)
  have i: "i < series" "Suc i + length rest \<le> series"
    using Cons.prems(2) by simp_all
  note inner = foldl_addPair_entry [OF Cons.prems(1) i(1), of "st_values stream" t j]
  note outer = Cons.IH [OF len i(2)]
  show ?case
  proof (cases "j = i")
    case True
    show ?thesis
      using inner outer unfolding True by simp
  next
    case False
    then have "(stream # rest) ! (j - i) = rest ! (j - Suc i)" if "i \<le> j"
    proof -
      have "j - i = Suc (j - Suc i)"
        using that False by simp
      then show ?thesis
        by simp
    qed
    then show ?thesis
      using inner outer False by (auto split: list.splits)
  qed
qed

lemma rowAt_member:
  "distinct (map fst ps) \<Longrightarrow> (t, fs) \<in> set ps \<Longrightarrow> rowAt series ps t = fs"
  by (simp add: rowAt_def)

lemma streamsLoop_columns:
  assumes "(t, fs) \<in> set (streamsLoop (length m) 0 [] m)"
  shows "t \<in> secondsOf m \<and> length fs = length m
       \<and> (\<forall>j < length m. fs ! j = cellValue (st_values (m ! j)) t)"
proof -
  let ?ps = "streamsLoop (length m) 0 [] m"
  have d: "distinct (map fst ?ps)"
    by (simp add: streamsLoop_distinct)
  have r: "rowAt (length m) ?ps t = fs"
    using rowAt_member [OF d assms] .
  have l0: "\<forall>t. length (rowAt (length m) [] t) = length m"
    by (simp add: rowAt_def)
  have "t \<in> fst ` set ?ps"
    using assms by force
  then have k: "t \<in> secondsOf m"
    by (simp add: streamsLoop_keys)
  have len: "length fs = length m"
    using streamsLoop_length [OF l0, of 0 m t] r by simp
  have "fs ! j = cellValue (st_values (m ! j)) t" if "j < length m" for j
    using streamsLoop_entry [OF l0, of 0 m t j] r that
    by (simp add: cellValue_def rowAt_def split: list.splits)
  then show ?thesis
    using k len by blast
qed

lemma streamsLoop_card:
  "length (streamsLoop (length m) 0 [] m) = card (secondsOf m)"
proof -
  let ?ps = "streamsLoop (length m) 0 [] m"
  have "distinct (map fst ?ps)"
    by (simp add: streamsLoop_distinct)
  then have "card (set (map fst ?ps)) = length (map fst ?ps)"
    by (rule distinct_card)
  moreover have "set (map fst ?ps) = secondsOf m"
    using streamsLoop_keys [of "length m" 0 "[]" m] by simp
  ultimately show ?thesis
    by simp
qed

lemma cellValue_no_sample:
  "t \<notin> secondOf ` set vals \<Longrightarrow> cellValue vals t = Fin 0"
proof -
  assume "t \<notin> secondOf ` set vals"
  then have "filter (\<lambda>pair. secondOf pair = t \<and> \<not> math_IsNaN (p_value pair)) vals = []"
    by (auto simp: filter_empty_conv)
  then show ?thesis
    by (simp add: cellValue_def)
qed

lemma matrixToValues_one:
  "length m = 1 \<Longrightarrow>
   matrixToValues m =
     [map (\<lambda>pair. float64_of_int (p_timestamp pair sdiv 1000)) (st_values (m ! 0)),
      map (\<lambda>pair. if math_IsNaN (p_value pair) then Fin 0 else p_value pair)
        (st_values (m ! 0))]"
  by (simp add: matrixToValues_def Let_def)

lemma matrixToValues_many_props:
  assumes "length m > 1"
  defines "out \<equiv> matrixToValues m"
  shows "length out = length m + 1"
    and "\<forall>row \<in> set out. length row = card (secondsOf m)"
    and "sorted_wrt f_lt (out ! 0)"
    and "set (out ! 0) = float64_of_int ` secondsOf m"
    and "\<forall>c < card (secondsOf m). \<exists>t \<in> secondsOf m.
           out ! 0 ! c = float64_of_int t
         \<and> (\<forall>j < length m. out ! (j + 1) ! c = cellValue (st_values (m ! j)) t)"
proof -
  let ?ps = "streamsLoop (length m) 0 [] m"
  let ?cs = "sortColumns ?ps"
  have out: "out = toRows (length m) ?cs"
    using assms(1) by (simp add: out_def matrixToValues_many)
  have len: "length ?cs = card (secondsOf m)"
    by (simp add: streamsLoop_card)
  have d: "distinct (map fst ?ps)"
    by (simp add: streamsLoop_distinct)
  have row0: "out ! 0 = map float64_of_int (map fst ?cs)"
    by (simp add: out toRows_def case_prod_beta)
  show "length out = length m + 1"
    by (simp add: out toRows_def)
  show "\<forall>row \<in> set out. length row = card (secondsOf m)"
    using len by (auto simp: out toRows_def)
  have "sorted_wrt (\<lambda>a b. f_lt (float64_of_int a) (float64_of_int b)) (map fst ?cs)"
    using sortColumns_strict [OF d] by (simp add: float64_of_int_def)
  then show "sorted_wrt f_lt (out ! 0)"
    by (simp only: row0 sorted_wrt_map)
  have "set (map fst ?cs) = secondsOf m"
    using streamsLoop_keys [of "length m" 0 "[]" m] by (simp add: sortColumns_set)
  then show "set (out ! 0) = float64_of_int ` secondsOf m"
    by (simp only: row0 set_map)
  show "\<forall>c < card (secondsOf m). \<exists>t \<in> secondsOf m.
           out ! 0 ! c = float64_of_int t
         \<and> (\<forall>j < length m. out ! (j + 1) ! c = cellValue (st_values (m ! j)) t)"
  proof (intro allI impI)
    fix c assume c: "c < card (secondsOf m)"
    obtain t fs where tf: "?cs ! c = (t, fs)"
      by (cases "?cs ! c") auto
    have "(t, fs) \<in> set ?cs"
      using c len tf by (metis nth_mem)
    then have "(t, fs) \<in> set ?ps"
      by (simp add: sortColumns_set)
    then have col: "t \<in> secondsOf m" "length fs = length m"
      "\<forall>j < length m. fs ! j = cellValue (st_values (m ! j)) t"
      using streamsLoop_columns [of t fs m] by simp_all
    have "out ! 0 ! c = float64_of_int t"
      using c len tf by (simp add: row0)
    moreover have "out ! (j + 1) ! c = cellValue (st_values (m ! j)) t" if "j < length m" for j
      using that c len tf col(3) by (simp add: out toRows_def)
    ultimately show "\<exists>t \<in> secondsOf m.
           out ! 0 ! c = float64_of_int t
         \<and> (\<forall>j < length m. out ! (j + 1) ! c = cellValue (st_values (m ! j)) t)"
      using col(1) by blast
  qed
qed

text \<open>
  Claim C3, with the timestamps of the general path counted in whole seconds. For one
  series with \<open>N\<close> samples the output is two rows of length \<open>N\<close>: row 0 holds the
  timestamps divided by 1000 (truncated) in the original order, row 1 the values with
  NaN replaced by 0, so it equals the input values when none is NaN. For \<open>N > 1\<close>
  series the output has one timestamp row and \<open>N\<close> value rows; every row has as many
  columns as there are distinct whole-second timestamps in the union of all series; the
  timestamp row is strictly ascending and holds exactly those seconds; in every column
  the value rows are aligned with the timestamp row: row \<open>j + 1\<close> holds the value
  series \<open>j\<close> contributes to that second, its last sample there that is not NaN, and 0
  where series \<open>j\<close> has no sample in that second.
\<close>

theorem C3_matrixToValues:
  "(length m = 1 \<longrightarrow>
      matrixToValues m =
        [map (\<lambda>pair. float64_of_int (p_timestamp pair sdiv 1000)) (st_values (m ! 0)),
         map (\<lambda>pair. if math_IsNaN (p_value pair) then Fin 0 else p_value pair)
           (st_values (m ! 0))]
    \<and> ((\<forall>pair \<in> set (st_values (m ! 0)). \<not> math_IsNaN (p_value pair)) \<longrightarrow>
          matrixToValues m ! 1 = map p_value (st_values (m ! 0))))
   \<and> (length m > 1 \<longrightarrow>
        length (matrixToValues m) = length m + 1
      \<and> (\<forall>row \<in> set (matrixToValues m). length row = card (secondsOf m))
      \<and> sorted_wrt f_lt (matrixToValues m ! 0)
      \<and> set (matrixToValues m ! 0) = float64_of_int ` secondsOf m
      \<and> (\<forall>c < card (secondsOf m). \<exists>t \<in> secondsOf m.
            matrixToValues m ! 0 ! c = float64_of_int t
          \<and> (\<forall>j < length m.
                matrixToValues m ! (j + 1) ! c = cellValue (st_values (m ! j)) t
              \<and> (t \<notin> secondOf ` set (st_values (m ! j)) \<longrightarrow>
                    matrixToValues m ! (j + 1) ! c = Fin 0))))"
proof (intro conjI impI)
  assume one: "length m = 1"
  show "matrixToValues m =
        [map (\<lambda>pair. float64_of_int (p_timestamp pair sdiv 1000)) (st_values (m ! 0)),
         map (\<lambda>pair. if math_IsNaN (p_value pair) then Fin 0 else p_value pair)
           (st_values (m ! 0))]"
    by (rule matrixToValues_one [OF one])
  assume "\<forall>pair \<in> set (st_values (m ! 0)). \<not> math_IsNaN (p_value pair)"
  then show "matrixToValues m ! 1 = map p_value (st_values (m ! 0))"
    by (simp add: matrixToValues_one [OF one])
next
  assume many: "length m > 1"
  note p = matrixToValues_many_props [OF many]
  show "length (matrixToValues m) = length m + 1"
    by (rule p(1))
  show "\<forall>row \<in> set (matrixToValues m). length row = card (secondsOf m)"
    by (rule p(2))
  show "sorted_wrt f_lt (matrixToValues m ! 0)"
    by (rule p(3))
  show "set (matrixToValues m ! 0) = float64_of_int ` secondsOf m"
    by (rule p(4))
  show "\<forall>c < card (secondsOf m). \<exists>t \<in> secondsOf m.
            matrixToValues m ! 0 ! c = float64_of_int t
          \<and> (\<forall>j < length m.
                matrixToValues m ! (j + 1) ! c = cellValue (st_values (m ! j)) t
              \<and> (t \<notin> secondOf ` set (st_values (m ! j)) \<longrightarrow>
                    matrixToValues m ! (j + 1) ! c = Fin 0))"
  proof (intro allI impI)
    fix c assume "c < card (secondsOf m)"
    then obtain t where t: "t \<in> secondsOf m" "matrixToValues m ! 0 ! c = float64_of_int t"
      "\<forall>j < length m. matrixToValues m ! (j + 1) ! c = cellValue (st_values (m ! j)) t"
      using p(5) by blast
    then show "\<exists>t \<in> secondsOf m.
            matrixToValues m ! 0 ! c = float64_of_int t
          \<and> (\<forall>j < length m.
                matrixToValues m ! (j + 1) ! c = cellValue (st_values (m ! j)) t
              \<and> (t \<notin> secondOf ` set (st_values (m ! j)) \<longrightarrow>
                    matrixToValues m ! (j + 1) ! c = Fin 0))"
      using cellValue_no_sample by (intro bexI [of _ t]) auto
  qed
qed

lemma matrixToValues_example_one:
  "matrixToValues [\<lparr> st_metric = Map.empty, st_values = [\<lparr> p_timestamp = 3000, p_value = Fin 1 \<rparr>, \<lparr> p_timestamp = 1000, p_value = Fin 2 \<rparr>] \<rparr>] = [[Fin 3, Fin 1], [Fin 1, Fin 2]]"
  by (simp add: matrixToValues_def float64_of_int_def math_IsNaN_def signed_divide_int_def)

lemma matrixToValues_example_two:
  "matrixToValues [\<lparr> st_metric = Map.empty, st_values = [\<lparr> p_timestamp = 3000, p_value = Fin 1 \<rparr>, \<lparr> p_timestamp = 1000, p_value = Fin 2 \<rparr>, \<lparr> p_timestamp = 2500, p_value = NaN \<rparr>] \<rparr>,
      \<lparr> st_metric = Map.empty, st_values = [\<lparr> p_timestamp = 2000, p_value = Fin 5 \<rparr>, \<lparr> p_timestamp = 1000, p_value = Fin 6 \<rparr>] \<rparr>] = [[Fin 1, Fin 2, Fin 3], [Fin 2, Fin 0, Fin 1], [Fin 6, Fin 5, Fin 0]]"
  by (simp add: matrixToValues_def float64_of_int_def math_IsNaN_def signed_divide_int_def
      addPair_def rowAt_def sort_Sort_def values_Len_def values_Less_def values_Swap_def
      Let_def upt_rec)

lemma distinctTimestamps_example: "distinctTimestamps [\<lparr> st_metric = Map.empty, st_values = [\<lparr> p_timestamp = 1000, p_value = Fin 1 \<rparr>, \<lparr> p_timestamp = 1500, p_value = Fin 2 \<rparr>] \<rparr>,
      \<lparr> st_metric = Map.empty, st_values = [\<lparr> p_timestamp = 1000, p_value = Fin 3 \<rparr>] \<rparr>] = 2"
  by (simp add: distinctTimestamps_def)

lemma matrixToValues_example_collapse:
  "matrixToValues [\<lparr> st_metric = Map.empty, st_values = [\<lparr> p_timestamp = 1000, p_value = Fin 1 \<rparr>, \<lparr> p_timestamp = 1500, p_value = Fin 2 \<rparr>] \<rparr>,
      \<lparr> st_metric = Map.empty, st_values = [\<lparr> p_timestamp = 1000, p_value = Fin 3 \<rparr>] \<rparr>] = [[Fin 1], [Fin 2], [Fin 3]]"
  by (simp add: matrixToValues_def float64_of_int_def math_IsNaN_def signed_divide_int_def
      addPair_def rowAt_def sort_Sort_def values_Len_def values_Less_def values_Swap_def
      Let_def upt_rec)

theorem C3_matrixToValues_witness:
  "matrixToValues [\<lparr> st_metric = Map.empty, st_values = [\<lparr> p_timestamp = 3000, p_value = Fin 1 \<rparr>, \<lparr> p_timestamp = 1000, p_value = Fin 2 \<rparr>] \<rparr>] ! 1 = [Fin 1, Fin 2]
   \<and> length (matrixToValues [\<lparr> st_metric = Map.empty, st_values = [\<lparr> p_timestamp = 3000, p_value = Fin 1 \<rparr>, \<lparr> p_timestamp = 1000, p_value = Fin 2 \<rparr>, \<lparr> p_timestamp = 2500, p_value = NaN \<rparr>] \<rparr>,
      \<lparr> st_metric = Map.empty, st_values = [\<lparr> p_timestamp = 2000, p_value = Fin 5 \<rparr>, \<lparr> p_timestamp = 1000, p_value = Fin 6 \<rparr>] \<rparr>]) = 3
   \<and> sorted_wrt f_lt (matrixToValues [\<lparr> st_metric = Map.empty, st_values = [\<lparr> p_timestamp = 3000, p_value = Fin 1 \<rparr>, \<lparr> p_timestamp = 1000, p_value = Fin 2 \<rparr>, \<lparr> p_timestamp = 2500, p_value = NaN \<rparr>] \<rparr>,
      \<lparr> st_metric = Map.empty, st_values = [\<lparr> p_timestamp = 2000, p_value = Fin 5 \<rparr>, \<lparr> p_timestamp = 1000, p_value = Fin 6 \<rparr>] \<rparr>] ! 0)
   \<and> matrixToValues [\<lparr> st_metric = Map.empty, st_values = [\<lparr> p_timestamp = 3000, p_value = Fin 1 \<rparr>, \<lparr> p_timestamp = 1000, p_value = Fin 2 \<rparr>, \<lparr> p_timestamp = 2500, p_value = NaN \<rparr>] \<rparr>,
      \<lparr> st_metric = Map.empty, st_values = [\<lparr> p_timestamp = 2000, p_value = Fin 5 \<rparr>, \<lparr> p_timestamp = 1000, p_value = Fin 6 \<rparr>] \<rparr>] = [[Fin 1, Fin 2, Fin 3], [Fin 2, Fin 0, Fin 1], [Fin 6, Fin 5, Fin 0]]"
proof -
  have "matrixToValues [\<lparr> st_metric = Map.empty, st_values = [\<lparr> p_timestamp = 3000, p_value = Fin 1 \<rparr>, \<lparr> p_timestamp = 1000, p_value = Fin 2 \<rparr>] \<rparr>] ! 1 = [Fin 1, Fin 2]"
    using C3_matrixToValues [of "[\<lparr> st_metric = Map.empty, st_values = [\<lparr> p_timestamp = 3000, p_value = Fin 1 \<rparr>, \<lparr> p_timestamp = 1000, p_value = Fin 2 \<rparr>] \<rparr>]"]
    by (simp add: math_IsNaN_def)
  moreover have "length (matrixToValues [\<lparr> st_metric = Map.empty, st_values = [\<lparr> p_timestamp = 3000, p_value = Fin 1 \<rparr>, \<lparr> p_timestamp = 1000, p_value = Fin 2 \<rparr>, \<lparr> p_timestamp = 2500, p_value = NaN \<rparr>] \<rparr>,
      \<lparr> st_metric = Map.empty, st_values = [\<lparr> p_timestamp = 2000, p_value = Fin 5 \<rparr>, \<lparr> p_timestamp = 1000, p_value = Fin 6 \<rparr>] \<rparr>]) = 3 \<and> sorted_wrt f_lt (matrixToValues [\<lparr> st_metric = Map.empty, st_values = [\<lparr> p_timestamp = 3000, p_value = Fin 1 \<rparr>, \<lparr> p_timestamp = 1000, p_value = Fin 2 \<rparr>, \<lparr> p_timestamp = 2500, p_value = NaN \<rparr>] \<rparr>,
      \<lparr> st_metric = Map.empty, st_values = [\<lparr> p_timestamp = 2000, p_value = Fin 5 \<rparr>, \<lparr> p_timestamp = 1000, p_value = Fin 6 \<rparr>] \<rparr>] ! 0)"
    using C3_matrixToValues [of "[\<lparr> st_metric = Map.empty, st_values = [\<lparr> p_timestamp = 3000, p_value = Fin 1 \<rparr>, \<lparr> p_timestamp = 1000, p_value = Fin 2 \<rparr>, \<lparr> p_timestamp = 2500, p_value = NaN \<rparr>] \<rparr>,
      \<lparr> st_metric = Map.empty, st_values = [\<lparr> p_timestamp = 2000, p_value = Fin 5 \<rparr>, \<lparr> p_timestamp = 1000, p_value = Fin 6 \<rparr>] \<rparr>]"]
    by simp
  ultimately show ?thesis
    using matrixToValues_example_two by simp
qed

text \<open>
  The claim as written counts the distinct sample timestamps. Two samples of one series
  half a second apart fall into the same second and share a column.
\<close>

theorem C3_columns_counterexample:
  "distinctTimestamps [\<lparr> st_metric = Map.empty, st_values = [\<lparr> p_timestamp = 1000, p_value = Fin 1 \<rparr>, \<lparr> p_timestamp = 1500, p_value = Fin 2 \<rparr>] \<rparr>,
      \<lparr> st_metric = Map.empty, st_values = [\<lparr> p_timestamp = 1000, p_value = Fin 3 \<rparr>] \<rparr>] = 2
   \<and> length (matrixToValues [\<lparr> st_metric = Map.empty, st_values = [\<lparr> p_timestamp = 1000, p_value = Fin 1 \<rparr>, \<lparr> p_timestamp = 1500, p_value = Fin 2 \<rparr>] \<rparr>,
      \<lparr> st_metric = Map.empty, st_values = [\<lparr> p_timestamp = 1000, p_value = Fin 3 \<rparr>] \<rparr>] ! 0) = 1"
  by (simp add: distinctTimestamps_example matrixToValues_example_collapse)

text \<open>
  The order in which the columns reach the sort does not matter: two arrangements of the
  same columns, with pairwise distinct timestamps, are sorted into the same rows. So the
  unspecified iteration order of the Go map has no effect on the result.
\<close>

lemma sortColumns_order_independent:
  assumes "mset ps = mset ps'" "distinct (map fst ps)"
  shows "toRows series (sortColumns ps) = toRows series (sortColumns ps')"
proof -
  have m: "mset (map fst ps') = mset (map fst ps)"
    using assms(1) by simp
  have d': "distinct (map fst ps')"
    using assms(2) m by (metis mset_eq_imp_distinct_iff)
  have s: "set (sortColumns ps) = set (sortColumns ps')"
    using assms(1) by (metis sortColumns_set set_mset_mset)
  have "inj_on fst (set ps)"
    using assms(2) by (simp add: distinct_map)
  then have inj: "inj_on fst (set (sortColumns ps) \<union> set (sortColumns ps'))"
    using s by (simp add: sortColumns_set [of ps])
  have "sortColumns ps = sortColumns ps'"
    using inj s sortColumns_sorted [of ps] sortColumns_sorted [of ps']
      sortColumns_strict [OF assms(2)] sortColumns_strict [OF d']
    by (intro map_sorted_distinct_set_unique [of fst]) (simp_all add: strict_sorted_iff)
  then show ?thesis
    by simp
qed

end
